theory Spec2Isabelle
  imports Complex_Main
begin

section \<open>Strings\<close>

text \<open>
  A JavaScript string is a sequence of UTF-16 code units. The background script only
  slices, indexes, concatenates and compares strings, all of which work code unit by code
  unit, so a string is modelled as the list of its code units, each given by its number.
\<close>

type_synonym jsstring = "nat list"

text \<open>A string literal of the source with ASCII characters only.\<close>

abbreviation str :: "string \<Rightarrow> jsstring" where
  "str s \<equiv> map of_char s"

text \<open>\<open>s.slice(a, b)\<close> and \<open>s.slice(a)\<close> for non-negative indices (out-of-range indices are
  clamped to the length by JavaScript, as \<open>take\<close> and \<open>drop\<close> do).\<close>

definition slice :: "nat \<Rightarrow> nat \<Rightarrow> jsstring \<Rightarrow> jsstring" where
  "slice a b s = take (b - a) (drop a s)"

definition sliceFrom :: "nat \<Rightarrow> jsstring \<Rightarrow> jsstring" where
  "sliceFrom a s = drop a s"

text \<open>
  \<open>String.prototype.toLowerCase\<close> is a built-in of the language (Unicode case conversion),
  not code of the repository: every function that calls it takes it as the parameter
  \<open>lc\<close>. The function below is its restriction to code units below 256 (Basic Latin and
  Latin-1 Supplement), where it works code unit by code unit; it instantiates \<open>lc\<close> at
  concrete inputs.
\<close>

definition lowerUnit :: "nat \<Rightarrow> nat" where
  "lowerUnit c = (if (65 \<le> c \<and> c \<le> 90) \<or> (192 \<le> c \<and> c \<le> 222 \<and> c \<noteq> 215) then c + 32 else c)"

definition toLowerCaseLatin1 :: "jsstring \<Rightarrow> jsstring" where
  "toLowerCaseLatin1 s = map lowerUnit s"

section \<open>Bigram scoring\<close>

text \<open>
  Numbers are IEEE doubles in JavaScript; a finite double is modelled as a real number,
  which leaves rounding out of the model. A table (\<open>bigramScores\<close>, \<open>frequencies\<close>) is an
  object parsed from JSON with numbers as values: it is modelled by its own properties, the
  number under a key or \<open>None\<close>. A bigram has two code units and no property inherited from
  \<open>Object.prototype\<close> has such a name, so \<open>bigramScores[bigram]\<close> is the own property or
  \<open>undefined\<close>, the case in which \<open>??\<close> takes its right operand.
\<close>

type_synonym table = "jsstring \<rightharpoonup> real"

definition scoreWord :: "(jsstring \<Rightarrow> jsstring) \<Rightarrow> jsstring \<Rightarrow> table \<Rightarrow> real" where
  "scoreWord lc word bigramScores =
     (let normalized = lc word in
      if length normalized < 2 then 0
      else foldl (\<lambda>score i.
                    let bigram = slice i (i + 2) normalized in
                    score + (case bigramScores bigram of None \<Rightarrow> - 1.5 | Some v \<Rightarrow> v))
                 0 [0..<length normalized - 1])"

section \<open>Candidate generation\<close>

text \<open>
  The alphabet \<open>letters\<close> of \<open>editDistanceOne\<close>: the 26 letters a to z followed by the 17
  accented letters of the source, each a single code unit, in the order the source lists
  them: a-acute, a-grave, a-circumflex, a-tilde, a-diaeresis,
  e-acute, e-circumflex, e-diaeresis, i-acute, i-diaeresis, o-acute, o-circumflex,
  o-tilde, o-diaeresis, u-acute, u-diaeresis, c-cedilla.
\<close>

definition letters :: "nat list" where
  "letters = str ''abcdefghijklmnopqrstuvwxyz''
     @ [225, 224, 226, 227, 228, 233, 234, 235, 237, 239, 243, 244, 245, 246, 250, 252, 231]"

text \<open>\<open>new Set(array)\<close>: the elements in insertion order, later duplicates dropped.\<close>

definition setAdd :: "'a list \<Rightarrow> 'a \<Rightarrow> 'a list" where
  "setAdd acc x = (if x \<in> set acc then acc else acc @ [x])"

definition newSet :: "'a list \<Rightarrow> 'a list" where
  "newSet xs = foldl setAdd [] xs"

definition splits :: "jsstring \<Rightarrow> (jsstring \<times> jsstring) list" where
  "splits word = map (\<lambda>i. (slice 0 i word, sliceFrom i word)) [0..<length word + 1]"

definition deletes :: "jsstring \<Rightarrow> jsstring list" where
  "deletes word =
     map (\<lambda>(left, right). left @ sliceFrom 1 right)
       (filter (\<lambda>(left, right). right \<noteq> []) (splits word))"

definition transposes :: "jsstring \<Rightarrow> jsstring list" where
  "transposes word =
     map (\<lambda>(left, right). left @ [right ! 1] @ [right ! 0] @ sliceFrom 2 right)
       (filter (\<lambda>(left, right). length right > 1) (splits word))"

definition replaces :: "jsstring \<Rightarrow> jsstring list" where
  "replaces word =
     concat (map (\<lambda>(left, right). map (\<lambda>char. left @ [char] @ sliceFrom 1 right) letters)
       (filter (\<lambda>(left, right). right \<noteq> []) (splits word)))"

definition inserts :: "jsstring \<Rightarrow> jsstring list" where
  "inserts word =
     concat (map (\<lambda>(left, right). map (\<lambda>char. left @ [char] @ right) letters) (splits word))"

definition editDistanceOne :: "jsstring \<Rightarrow> jsstring list" where
  "editDistanceOne word = newSet (deletes word @ transposes word @ replaces word @ inserts word)"

section \<open>Ranking\<close>

record model =
  dictionary :: "jsstring set"
  frequencies :: table
  bigramScores :: table

text \<open>
  \<open>model.frequencies[candidate]\<close> is read with a whole word as the key, and a plain object
  inherits the properties of \<open>Object.prototype\<close>: where the table has no own property under
  the key, the lookup finds the inherited one when the key is one of the names below, and
  is \<open>undefined\<close> otherwise. An inherited property is a function (an object for
  \<open>__proto__\<close>), never \<open>null\<close> or \<open>undefined\<close>.
\<close>

definition objectPrototypeKeys :: "jsstring set" where
  "objectPrototypeKeys =
     {str ''constructor'', str ''hasOwnProperty'', str ''isPrototypeOf'',
      str ''propertyIsEnumerable'', str ''toLocaleString'', str ''toString'', str ''valueOf'',
      str ''__proto__'', str ''__defineGetter__'', str ''__defineSetter__'',
      str ''__lookupGetter__'', str ''__lookupSetter__''}"

datatype property = Undefined | NumberValue real | InheritedValue

definition getProperty :: "table \<Rightarrow> jsstring \<Rightarrow> property" where
  "getProperty tbl key =
     (case tbl key of
        Some v \<Rightarrow> NumberValue v
      | None \<Rightarrow> if key \<in> objectPrototypeKeys then InheritedValue else Undefined)"

text \<open>
  The doubles a score can be: a finite number, an infinity, or NaN. \<open>Math.log\<close> is the
  natural logarithm on a positive number, \<open>-Infinity\<close> at 0 and NaN on a negative number and
  on a value that converts to NaN, as a function or an object does. Sum and difference
  follow IEEE 754 on these values.
\<close>

datatype jsnum = Finite real | PlusInfinity | MinusInfinity | NotANumber

definition mathLog :: "property \<Rightarrow> jsnum" where
  "mathLog v =
     (case v of
        NumberValue f \<Rightarrow>
          if f < 0 then NotANumber else if f = 0 then MinusInfinity else Finite (ln f)
      | InheritedValue \<Rightarrow> NotANumber
      | Undefined \<Rightarrow> NotANumber)"

fun jsAdd :: "jsnum \<Rightarrow> jsnum \<Rightarrow> jsnum" where
  "jsAdd NotANumber b = NotANumber"
| "jsAdd a NotANumber = NotANumber"
| "jsAdd (Finite a) (Finite b) = Finite (a + b)"
| "jsAdd PlusInfinity MinusInfinity = NotANumber"
| "jsAdd MinusInfinity PlusInfinity = NotANumber"
| "jsAdd PlusInfinity b = PlusInfinity"
| "jsAdd a PlusInfinity = PlusInfinity"
| "jsAdd MinusInfinity b = MinusInfinity"
| "jsAdd a MinusInfinity = MinusInfinity"

fun jsNegate :: "jsnum \<Rightarrow> jsnum" where
  "jsNegate (Finite a) = Finite (- a)"
| "jsNegate PlusInfinity = MinusInfinity"
| "jsNegate MinusInfinity = PlusInfinity"
| "jsNegate NotANumber = NotANumber"

definition jsSubtract :: "jsnum \<Rightarrow> jsnum \<Rightarrow> jsnum" where
  "jsSubtract a b = jsAdd a (jsNegate b)"

fun isPositive :: "jsnum \<Rightarrow> bool" where
  "isPositive (Finite a) = (0 < a)"
| "isPositive PlusInfinity = True"
| "isPositive MinusInfinity = False"
| "isPositive NotANumber = False"

text \<open>The real number of a finite double, for statements about scores that are finite.\<close>

fun finiteValue :: "jsnum \<Rightarrow> real" where
  "finiteValue (Finite a) = a"
| "finiteValue PlusInfinity = 0"
| "finiteValue MinusInfinity = 0"
| "finiteValue NotANumber = 0"

text \<open>
  The loop of \<open>rankCandidates\<close>, which pushes a scored entry for every known candidate.
\<close>

definition candidateScore :: "(jsstring \<Rightarrow> jsstring) \<Rightarrow> model \<Rightarrow> jsstring \<Rightarrow> jsnum" where
  "candidateScore lc m candidate =
     (let frequency = (case getProperty (frequencies m) candidate of
                         Undefined \<Rightarrow> NumberValue 1
                       | NumberValue f \<Rightarrow> NumberValue f
                       | InheritedValue \<Rightarrow> InheritedValue);
          score = scoreWord lc candidate (bigramScores m)
      in jsAdd (Finite score) (mathLog frequency))"

fun scoredEntries ::
  "(jsstring \<Rightarrow> jsstring) \<Rightarrow> model \<Rightarrow> jsstring set \<Rightarrow> jsstring list \<Rightarrow>
   (jsstring \<times> jsnum) list \<Rightarrow> (jsstring \<times> jsnum) list" where
  "scoredEntries lc m custom [] scored = scored"
| "scoredEntries lc m custom (candidate # rest) scored =
     (let isKnown = (candidate \<in> dictionary m \<or> candidate \<in> custom) in
      if \<not> isKnown then scoredEntries lc m custom rest scored
      else scoredEntries lc m custom rest (scored @ [(candidate, candidateScore lc m candidate)]))"

text \<open>
  \<open>Array.prototype.sort\<close> with a comparator: the sort is stable, \<open>a\<close> goes after \<open>b\<close> when
  \<open>comparefn(a, b)\<close> is positive, and a result that is NaN counts as 0. When every score
  is finite the comparator \<open>b.score - a.score\<close> is consistent and the insertion sort below
  returns the one order the language allows, higher scores first. When the comparator
  returns NaN (a NaN score, or two scores \<open>-Infinity\<close>) the language leaves the order to the
  implementation; the insertion sort then keeps the elements that the comparator does not
  order as they stood.
\<close>

definition compareScores :: "jsstring \<times> jsnum \<Rightarrow> jsstring \<times> jsnum \<Rightarrow> jsnum" where
  "compareScores a b = jsSubtract (snd b) (snd a)"

fun sortInsert :: "('a \<Rightarrow> 'a \<Rightarrow> jsnum) \<Rightarrow> 'a \<Rightarrow> 'a list \<Rightarrow> 'a list" where
  "sortInsert comparefn x [] = [x]"
| "sortInsert comparefn x (y # ys) =
     (if isPositive (comparefn x y) then y # sortInsert comparefn x ys else x # y # ys)"

definition arraySort :: "('a \<Rightarrow> 'a \<Rightarrow> jsnum) \<Rightarrow> 'a list \<Rightarrow> 'a list" where
  "arraySort comparefn xs = foldr (sortInsert comparefn) xs []"

definition rankCandidates ::
  "(jsstring \<Rightarrow> jsstring) \<Rightarrow> jsstring \<Rightarrow> jsstring list \<Rightarrow> model \<Rightarrow> jsstring set \<Rightarrow> jsstring list" where
  "rankCandidates lc token candidates m custom =
     map fst (take 5 (arraySort compareScores (scoredEntries lc m custom candidates [])))"

section \<open>Options, lexicon store and the correction service\<close>

record options =
  enabled :: bool
  language :: jsstring
  customWords :: jsstring
  allowlist :: jsstring

text \<open>Code units that \<open>String.prototype.trim\<close> removes (white space and line terminators).\<close>

definition isWhiteSpace :: "nat \<Rightarrow> bool" where
  "isWhiteSpace c \<longleftrightarrow>
     c \<in> {9, 10, 11, 12, 13, 32, 160, 5760, 8232, 8233, 8239, 8287, 12288, 65279}
     \<or> (8192 \<le> c \<and> c \<le> 8202)"

definition trim :: "jsstring \<Rightarrow> jsstring" where
  "trim s = rev (dropWhile isWhiteSpace (rev (dropWhile isWhiteSpace s)))"

text \<open>\<open>s.split(sep)\<close> for a one-character separator; \<open>cur\<close> is the piece being read.\<close>

fun splitOn :: "nat \<Rightarrow> jsstring \<Rightarrow> jsstring \<Rightarrow> jsstring list" where
  "splitOn sep cur [] = [cur]"
| "splitOn sep cur (c # cs) =
     (if c = sep then cur # splitOn sep [] cs else splitOn sep (cur @ [c]) cs)"

definition parseCustomWords :: "(jsstring \<Rightarrow> jsstring) \<Rightarrow> jsstring \<Rightarrow> jsstring set" where
  "parseCustomWords lc raw =
     set (filter (\<lambda>word. word \<noteq> []) (map (\<lambda>word. lc (trim word)) (splitOn 44 [] raw)))"

datatype failure = StorageError | FetchError | ParseError | TypeError

text \<open>
  The parsed JSON of a model file. \<open>data.dictionary.map\<close> throws a TypeError when the
  word list is missing; the two tables are optional (\<open>?? {}\<close>).
\<close>

record modelData =
  dataDictionary :: "jsstring list option"
  dataFrequencies :: "table option"
  dataBigramScores :: "table option"

text \<open>
  The world outside the script: what \<open>chrome.storage.sync.get(defaultOptions)\<close> resolves
  to (the stored options, completed with the defaults) or that it rejects, and for each
  URL what \<open>fetch\<close> followed by \<open>response.json()\<close> resolves to or that it rejects.
\<close>

record environment =
  storageGet :: "failure + options"
  fetchJson :: "string \<Rightarrow> failure + modelData"

text \<open>
  The script's variables: \<open>currentOptions\<close> and \<open>modelCache\<close>, which maps a URL to the
  promise created for it, here by the value the promise settles to.
\<close>

record state =
  currentOptions :: options
  modelCache :: "string \<rightharpoonup> (failure + model)"

text \<open>The calls a request makes, in order, so that a claim can say what was not run.\<close>

datatype call = CallLoadOptions | CallLoadModel | CallFetch string
  | CallEditDistanceOne | CallRankCandidates

definition loadOptions :: "environment \<Rightarrow> state \<Rightarrow> (failure + options) \<times> state" where
  "loadOptions env s =
     (case storageGet env of
        Inl e \<Rightarrow> (Inl e, s)
      | Inr stored \<Rightarrow> (Inr stored, s\<lparr>currentOptions := stored\<rparr>))"

definition getModelUrl :: "jsstring \<Rightarrow> string" where
  "getModelUrl lang =
     (if lang = str ''pt-PT'' then ''models/pt.json'' else ''models/model.json'')"

definition buildModel :: "(jsstring \<Rightarrow> jsstring) \<Rightarrow> modelData \<Rightarrow> failure + model" where
  "buildModel lc data =
     (case dataDictionary data of
        None \<Rightarrow> Inl TypeError
      | Some ws \<Rightarrow>
          Inr \<lparr>dictionary = set (map lc ws),
               frequencies = (case dataFrequencies data of None \<Rightarrow> Map.empty | Some t \<Rightarrow> t),
               bigramScores = (case dataBigramScores data of None \<Rightarrow> Map.empty | Some t \<Rightarrow> t)\<rparr>)"

definition loadModel ::
  "(jsstring \<Rightarrow> jsstring) \<Rightarrow> environment \<Rightarrow> state \<Rightarrow> jsstring \<Rightarrow>
   (failure + model) \<times> state \<times> call list" where
  "loadModel lc env s lang =
     (let modelUrl = getModelUrl lang in
      case modelCache s modelUrl of
        Some settled \<Rightarrow> (settled, s, [])
      | None \<Rightarrow>
          (let settled = (case fetchJson env modelUrl of
                            Inl e \<Rightarrow> Inl e
                          | Inr data \<Rightarrow> buildModel lc data)
           in (settled, s\<lparr>modelCache := (modelCache s)(modelUrl \<mapsto> settled)\<rparr>,
               [CallFetch modelUrl])))"

record verdict =
  isCorrect :: bool
  suggestions :: "jsstring list"

definition assumeCorrect :: verdict where
  "assumeCorrect = \<lparr>isCorrect = True, suggestions = []\<rparr>"

text \<open>\<open>message.token\<close> is whatever the sender put there; only a string has \<open>toLowerCase\<close>.\<close>

datatype token = Str jsstring | NotAString

text \<open>
  The first statement of \<open>suggestCorrections\<close>:
  \<open>currentOptions.enabled ? currentOptions : await loadOptions()\<close>.
\<close>

definition resolveOptions ::
  "environment \<Rightarrow> state \<Rightarrow> (failure + options) \<times> state \<times> call list" where
  "resolveOptions env s =
     (if enabled (currentOptions s) then (Inr (currentOptions s), s, [])
      else (let (r, s') = loadOptions env s in (r, s', [CallLoadOptions])))"

definition suggestCorrections ::
  "(jsstring \<Rightarrow> jsstring) \<Rightarrow> environment \<Rightarrow> state \<Rightarrow> token \<Rightarrow>
   (failure + verdict) \<times> state \<times> call list" where
  "suggestCorrections lc env s tok =
     (case resolveOptions env s of
        (Inl e, s1, c1) \<Rightarrow> (Inl e, s1, c1)
      | (Inr opts, s1, c1) \<Rightarrow>
          if \<not> enabled opts then (Inr assumeCorrect, s1, c1)
          else
            (case loadModel lc env s1 (language opts) of
               (Inl e, s2, c2) \<Rightarrow> (Inl e, s2, c1 @ CallLoadModel # c2)
             | (Inr m, s2, c2) \<Rightarrow>
                 (case tok of
                    NotAString \<Rightarrow> (Inl TypeError, s2, c1 @ CallLoadModel # c2)
                  | Str t \<Rightarrow>
                      (let normalized = lc t;
                           custom = parseCustomWords lc (customWords opts)
                       in if normalized = [] \<or> normalized \<in> dictionary m \<or> normalized \<in> custom
                          then (Inr assumeCorrect, s2, c1 @ CallLoadModel # c2)
                          else
                            (let candidates = editDistanceOne normalized;
                                 ranked = rankCandidates lc normalized candidates m custom
                             in (Inr \<lparr>isCorrect = (length ranked = 0), suggestions = ranked\<rparr>, s2,
                                 c1 @ CallLoadModel # c2 @ [CallEditDistanceOne, CallRankCandidates]))))))"

text \<open>
  The listener for a \<open>SPELLCHECK\<close> message: the response sent back is the token with
  the verdict, and the \<open>catch\<close> handler answers a rejected request.
\<close>

definition onMessage ::
  "(jsstring \<Rightarrow> jsstring) \<Rightarrow> environment \<Rightarrow> state \<Rightarrow> token \<Rightarrow>
   (token \<times> verdict) \<times> state \<times> call list" where
  "onMessage lc env s tok =
     (case suggestCorrections lc env s tok of
        (Inr result, s', cs) \<Rightarrow> ((tok, result), s', cs)
      | (Inl e, s', cs) \<Rightarrow> ((tok, \<lparr>isCorrect = True, suggestions = []\<rparr>), s', cs))"

section \<open>Concrete inputs\<close>

text \<open>Lexicons used to run the definitions: the words "ab" and "ac", and the custom word "zy".\<close>

definition exampleModel :: model where
  "exampleModel =
     \<lparr>dictionary = {str ''ab'', str ''ac''},
      frequencies = [str ''ab'' \<mapsto> 1],
      bigramScores = [str ''ac'' \<mapsto> - 0.5]\<rparr>"

definition customModel :: model where
  "customModel =
     \<lparr>dictionary = {}, frequencies = [str ''zy'' \<mapsto> 2], bigramScores = [str ''zy'' \<mapsto> - 0.5]\<rparr>"

definition emptyModel :: model where
  "emptyModel = \<lparr>dictionary = {}, frequencies = Map.empty, bigramScores = Map.empty\<rparr>"

text \<open>
  The script's initial variables (\<open>defaultOptions\<close>, an empty \<open>modelCache\<close>), a model file
  whose word list is the single word "a", and environments that serve it or fail.
\<close>

definition defaultOptions :: options where
  "defaultOptions = \<lparr>enabled = True, language = str ''en-US'', customWords = [], allowlist = []\<rparr>"

definition initialState :: state where
  "initialState = \<lparr>currentOptions = defaultOptions, modelCache = Map.empty\<rparr>"

definition exampleData :: modelData where
  "exampleData = \<lparr>dataDictionary = Some [str ''a''], dataFrequencies = None, dataBigramScores = None\<rparr>"

definition exampleLexicon :: model where
  "exampleLexicon = \<lparr>dictionary = {str ''a''}, frequencies = Map.empty, bigramScores = Map.empty\<rparr>"

definition exampleEnv :: environment where
  "exampleEnv = \<lparr>storageGet = Inr defaultOptions, fetchJson = (\<lambda>url. Inr exampleData)\<rparr>"

definition offlineEnv :: environment where
  "offlineEnv = \<lparr>storageGet = Inl StorageError, fetchJson = (\<lambda>url. Inl FetchError)\<rparr>"

definition brokenEnv :: environment where
  "brokenEnv =
     \<lparr>storageGet = Inr defaultOptions,
      fetchJson = (\<lambda>url. Inr \<lparr>dataDictionary = None, dataFrequencies = None, dataBigramScores = None\<rparr>)\<rparr>"

definition disabledOptions :: options where
  "disabledOptions = defaultOptions\<lparr>enabled := False\<rparr>"

definition disabledState :: state where
  "disabledState = initialState\<lparr>currentOptions := disabledOptions\<rparr>"

definition disabledEnv :: environment where
  "disabledEnv = exampleEnv\<lparr>storageGet := Inr disabledOptions\<rparr>"


definition cachedState :: state where
  "cachedState = initialState\<lparr>modelCache := [''models/model.json'' \<mapsto> Inr exampleModel]\<rparr>"

definition loadedState :: state where
  "loadedState = initialState\<lparr>modelCache := [''models/model.json'' \<mapsto> Inr exampleLexicon]\<rparr>"

text \<open>
  A model file with the words "construct" and "constructor", no frequency table, and the
  bigram score 2 for "or".
\<close>

definition constructorData :: modelData where
  "constructorData =
     \<lparr>dataDictionary = Some [str ''construct'', str ''constructor''],
      dataFrequencies = None,
      dataBigramScores = Some [str ''or'' \<mapsto> 2]\<rparr>"

definition constructorModel :: model where
  "constructorModel =
     \<lparr>dictionary = {str ''construct'', str ''constructor''},
      frequencies = Map.empty,
      bigramScores = [str ''or'' \<mapsto> 2]\<rparr>"

definition constructorEnv :: environment where
  "constructorEnv = \<lparr>storageGet = Inr defaultOptions, fetchJson = (\<lambda>url. Inr constructorData)\<rparr>"

section \<open>Properties\<close>

subsection \<open>Sets built from arrays\<close>

lemma foldl_setAdd_set: "set (foldl setAdd acc xs) = set acc \<union> set xs"
  by (induction xs arbitrary: acc) (auto simp: setAdd_def)

lemma foldl_setAdd_distinct: "distinct acc \<Longrightarrow> distinct (foldl setAdd acc xs)"
  by (induction xs arbitrary: acc) (auto simp: setAdd_def)

lemma set_newSet: "set (newSet xs) = set xs"
  by (simp add: newSet_def foldl_setAdd_set)

lemma distinct_newSet: "distinct (newSet xs)"
  by (simp add: newSet_def foldl_setAdd_distinct)

lemma foldl_setAdd_distinct_id: "distinct (acc @ xs) \<Longrightarrow> foldl setAdd acc xs = acc @ xs"
  by (induction xs arbitrary: acc) (auto simp: setAdd_def)

lemma newSet_distinct_id: "distinct xs \<Longrightarrow> newSet xs = xs"
  using foldl_setAdd_distinct_id [of "[]" xs] by (simp add: newSet_def)

lemma filter_setAdd:
  "filter P (foldl setAdd acc xs) = foldl setAdd (filter P acc) (filter P xs)"
proof (induction xs arbitrary: acc)
  case Nil
  then show ?case by simp
next
  case (Cons x xs)
  have "filter P (setAdd acc x) = (if P x then setAdd (filter P acc) x else filter P acc)"
    by (simp add: setAdd_def)
  with Cons [of "setAdd acc x"] show ?case by simp
qed

lemma filter_newSet: "filter P (newSet xs) = newSet (filter P xs)"
  using filter_setAdd [of P "[]" xs] by (simp add: newSet_def)

subsection \<open>The splits of a word\<close>

lemma splits_index: "splits w = map (\<lambda>i. (take i w, drop i w)) [0..<Suc (length w)]"
  by (simp add: splits_def slice_def sliceFrom_def)

lemma filter_upt_prefix:
  assumes "\<And>i. i \<le> n \<Longrightarrow> P i \<longleftrightarrow> i < k" and "k \<le> n"
  shows "filter P [0..<Suc n] = [0..<k]"
proof -
  have "m \<le> Suc n \<Longrightarrow> filter P [0..<m] = [0..<min m k]" for m
  proof (induction m)
    case 0
    then show ?case by simp
  next
    case (Suc m)
    then have ih: "filter P [0..<m] = [0..<min m k]" and mn: "m \<le> n" by simp_all
    show ?case
    proof (cases "m < k")
      case True
      then show ?thesis using ih mn assms(1) [of m] by (simp add: min_def)
    next
      case False
      then show ?thesis using ih mn assms(1) [of m] by (simp add: min_def)
    qed
  qed
  from this [of "Suc n"] assms(2) show ?thesis by (simp add: min_def)
qed

lemma splits_nonempty_right:
  "filter (\<lambda>(left, right). right \<noteq> []) (splits w) = map (\<lambda>i. (take i w, drop i w)) [0..<length w]"
proof -
  have "filter (\<lambda>i. drop i w \<noteq> []) [0..<Suc (length w)] = [0..<length w]"
    by (rule filter_upt_prefix) auto
  then show ?thesis
    unfolding splits_index filter_map by (simp add: comp_def del: upt_Suc)
qed

lemma splits_long_right:
  "filter (\<lambda>(left, right). length right > 1) (splits w)
     = map (\<lambda>i. (take i w, drop i w)) [0..<length w - 1]"
proof -
  have "filter (\<lambda>i. length (drop i w) > 1) [0..<Suc (length w)] = [0..<length w - 1]"
    by (rule filter_upt_prefix) auto
  then show ?thesis
    unfolding splits_index filter_map by (simp add: comp_def del: upt_Suc)
qed

lemma deletes_index: "deletes w = map (\<lambda>i. take i w @ drop (Suc i) w) [0..<length w]"
  by (simp add: deletes_def splits_nonempty_right sliceFrom_def comp_def)

lemma transposes_index:
  "transposes w = map (\<lambda>i. take i w @ [w ! Suc i, w ! i] @ drop (i + 2) w) [0..<length w - 1]"
  unfolding transposes_def splits_long_right
  by (simp add: sliceFrom_def comp_def add.commute)

lemma replaces_index:
  "replaces w = concat (map (\<lambda>i. map (\<lambda>c. take i w @ [c] @ drop (Suc i) w) letters) [0..<length w])"
  by (simp add: replaces_def splits_nonempty_right sliceFrom_def comp_def)

lemma inserts_index:
  "inserts w = concat (map (\<lambda>i. map (\<lambda>c. take i w @ [c] @ drop i w) letters) [0..<Suc (length w)])"
  by (simp add: inserts_def splits_index comp_def del: upt_Suc)

lemma length_concat_const:
  "(\<And>x. x \<in> set xs \<Longrightarrow> length (f x) = k) \<Longrightarrow> length (concat (map f xs)) = length xs * k"
  by (induction xs) simp_all

lemma length_letters: "length letters = 43"
  by (simp add: letters_def)

lemma distinct_letters: "distinct letters"
  by (simp add: letters_def)

subsection \<open>The four families of edits\<close>

lemma set_editDistanceOne:
  "set (editDistanceOne w) = set (deletes w) \<union> set (transposes w) \<union> set (replaces w) \<union> set (inserts w)"
  by (auto simp: editDistanceOne_def set_newSet)

lemma length_deletes: "length (deletes w) = length w"
  by (simp add: deletes_index)

lemma length_transposes: "length (transposes w) = length w - 1"
  by (simp add: transposes_index)

lemma length_replaces: "length (replaces w) = length w * length letters"
  unfolding replaces_index by (subst length_concat_const [where k = "length letters"]) simp_all

lemma length_inserts: "length (inserts w) = (length w + 1) * length letters"
  unfolding inserts_index by (subst length_concat_const [where k = "length letters"]) simp_all

lemma editDistanceOne_empty: "editDistanceOne [] = map (\<lambda>c. [c]) letters"
proof -
  have "distinct (map (\<lambda>c. [c]) letters)"
    by (simp add: distinct_map distinct_letters inj_on_def)
  then show ?thesis
    by (simp add: editDistanceOne_def deletes_index transposes_index replaces_index
        inserts_index newSet_distinct_id)
qed

lemma transposes_single: "transposes [c] = []"
  by (simp add: transposes_index)

lemma length_deleted: "x \<in> set (deletes w) \<Longrightarrow> Suc (length x) = length w"
  by (auto simp: deletes_index)

lemma length_inserted: "x \<in> set (inserts w) \<Longrightarrow> length x = Suc (length w)"
  by (auto simp: inserts_index simp del: upt_Suc)

lemma mem_transposes:
  "x \<in> set (transposes w)
     \<longleftrightarrow> (\<exists>i. Suc i < length w \<and> take i w @ [w ! Suc i, w ! i] @ drop (i + 2) w = x)"
proof -
  have "i < length w - 1 \<longleftrightarrow> Suc i < length w" for i by auto
  then show ?thesis
    unfolding transposes_index set_map image_iff by (auto simp: Bex_def)
qed

lemma mem_replaces:
  "x \<in> set (replaces w)
     \<longleftrightarrow> (\<exists>i<length w. \<exists>c\<in>set letters. take i w @ [c] @ drop (Suc i) w = x)"
  by (auto simp: replaces_index)

lemma replace_two_eq:
  assumes "Suc i < length w"
  shows "take i w @ [a, b] @ drop (i + 2) w = w \<longleftrightarrow> a = w ! i \<and> b = w ! Suc i"
proof -
  have d1: "drop i w = w ! i # drop (Suc i) w"
    using assms by (simp add: Cons_nth_drop_Suc)
  have d2: "drop (Suc i) w = w ! Suc i # drop (Suc (Suc i)) w"
    using assms by (simp add: Cons_nth_drop_Suc)
  have "take i w @ [a, b] @ drop (i + 2) w = w
        \<longleftrightarrow> [a, b] @ drop (i + 2) w = drop i w"
    using assms by (simp add: append_eq_conv_conj min_def)
  also have "\<dots> \<longleftrightarrow> a = w ! i \<and> b = w ! Suc i"
    unfolding d1 d2 by simp
  finally show ?thesis .
qed

lemma replace_one_eq:
  assumes "i < length w"
  shows "take i w @ [c] @ drop (Suc i) w = w \<longleftrightarrow> c = w ! i"
proof -
  have d1: "drop i w = w ! i # drop (Suc i) w"
    using assms by (simp add: Cons_nth_drop_Suc)
  have "take i w @ [c] @ drop (Suc i) w = w \<longleftrightarrow> [c] @ drop (Suc i) w = drop i w"
    using assms by (simp add: append_eq_conv_conj min_def)
  also have "\<dots> \<longleftrightarrow> c = w ! i"
    unfolding d1 by simp
  finally show ?thesis .
qed

lemma word_transposed_iff:
  "w \<in> set (transposes w) \<longleftrightarrow> (\<exists>i. Suc i < length w \<and> w ! i = w ! Suc i)"
  unfolding mem_transposes using replace_two_eq [of _ w] by (metis (no_types, lifting))

lemma word_replaced_iff:
  "w \<in> set (replaces w) \<longleftrightarrow> (\<exists>i<length w. w ! i \<in> set letters)"
  unfolding mem_replaces using replace_one_eq [of _ w] by (metis (no_types, lifting))

lemma word_own_candidate_iff:
  "w \<in> set (editDistanceOne w)
     \<longleftrightarrow> (\<exists>i<length w. w ! i \<in> set letters) \<or> (\<exists>i. Suc i < length w \<and> w ! i = w ! Suc i)"
proof -
  have "w \<notin> set (deletes w)" using length_deleted [of w w] by auto
  moreover have "w \<notin> set (inserts w)" using length_inserted [of w w] by auto
  ultimately show ?thesis
    unfolding set_editDistanceOne Un_iff word_transposed_iff word_replaced_iff by blast
qed

lemma length_transposed: "x \<in> set (transposes w) \<Longrightarrow> length x = length w"
  by (auto simp: mem_transposes)

lemma length_replaced: "x \<in> set (replaces w) \<Longrightarrow> length x = length w"
  by (auto simp: mem_replaces)

lemma inserts_split:
  "inserts w
     = concat (map (\<lambda>i. map (\<lambda>c. take i w @ [c] @ drop i w) letters) [0..<length w])
       @ map (\<lambda>c. w @ [c]) letters"
  by (simp add: inserts_index)

lemma last_inserted_inside:
  assumes "x \<in> set (concat (map (\<lambda>i. map (\<lambda>c. take i w @ [c] @ drop i w) letters) [0..<length w]))"
  shows "last x = last w"
proof -
  from assms obtain i c where "i < length w" and x: "x = take i w @ [c] @ drop i w"
    by auto
  then have "drop i w \<noteq> []" by simp
  then have "last x = last (drop i w)" unfolding x by simp
  also have "\<dots> = last w" using \<open>i < length w\<close> by simp
  finally show ?thesis .
qed

subsection \<open>Scoring\<close>

lemma foldl_add_sum:
  fixes f :: "nat \<Rightarrow> real"
  shows "foldl (\<lambda>acc i. acc + f i) a [0..<n] = a + (\<Sum>i<n. f i)"
  by (induction n arbitrary: a) (simp_all add: add.assoc)

lemma bigram_key_own:
  assumes "length key = 2"
  shows "key \<notin> objectPrototypeKeys"
    and "getProperty tbl key = (case tbl key of None \<Rightarrow> Undefined | Some v \<Rightarrow> NumberValue v)"
proof -
  show "key \<notin> objectPrototypeKeys"
    using assms by (auto simp: objectPrototypeKeys_def)
  then show "getProperty tbl key = (case tbl key of None \<Rightarrow> Undefined | Some v \<Rightarrow> NumberValue v)"
    by (simp add: getProperty_def split: option.splits)
qed

lemma length_window:
  assumes "i < length w - 1"
  shows "length (slice i (i + 2) w) = 2"
  using assms by (simp add: slice_def)

lemma scoreWord_as_sum:
  "scoreWord lc w tbl =
     (if length (lc w) < 2 then 0
      else (\<Sum>i<length (lc w) - 1.
              case tbl (slice i (i + 2) (lc w)) of None \<Rightarrow> - 1.5 | Some v \<Rightarrow> v))"
  by (simp add: scoreWord_def Let_def foldl_add_sum)

lemma scoreWord_all_default:
  assumes "\<forall>i<length (lc w) - 1. tbl (slice i (i + 2) (lc w)) = None"
  shows "scoreWord lc w tbl = - 1.5 * real (length (lc w) - 1)"
proof (cases "length (lc w) < 2")
  case True
  then have "length (lc w) - 1 = 0" by simp
  with True show ?thesis by (simp add: scoreWord_as_sum)
next
  case False
  have "(\<Sum>i<length (lc w) - 1.
            case tbl (slice i (i + 2) (lc w)) of None \<Rightarrow> - 1.5 | Some v \<Rightarrow> v)
        = (\<Sum>i<length (lc w) - 1. (- 1.5 :: real))"
    by (rule sum.cong) (use assms in simp_all)
  with False show ?thesis by (simp add: scoreWord_as_sum)
qed

subsection \<open>Ranking\<close>

lemma scoredEntries_eq:
  "scoredEntries lc m custom cands acc
     = acc @ map (\<lambda>c. (c, candidateScore lc m c))
               (filter (\<lambda>c. c \<in> dictionary m \<or> c \<in> custom) cands)"
  by (induction cands arbitrary: acc) (simp_all add: Let_def)

lemma arraySort_Cons: "arraySort cmp (x # xs) = sortInsert cmp x (arraySort cmp xs)"
  by (simp add: arraySort_def)

lemma arraySort_Nil: "arraySort cmp [] = []"
  by (simp add: arraySort_def)

lemma set_sortInsert: "set (sortInsert cmp x ys) = insert x (set ys)"
  by (induction ys) auto

lemma length_sortInsert: "length (sortInsert cmp x ys) = Suc (length ys)"
  by (induction ys) simp_all

lemma set_arraySort: "set (arraySort cmp xs) = set xs"
  by (induction xs) (simp_all add: arraySort_Nil arraySort_Cons set_sortInsert)

lemma length_arraySort: "length (arraySort cmp xs) = length xs"
  by (induction xs) (simp_all add: arraySort_Nil arraySort_Cons length_sortInsert)

lemma rankCandidates_eq:
  "rankCandidates lc token cands m custom
     = map fst (take 5 (arraySort compareScores
         (map (\<lambda>c. (c, candidateScore lc m c))
            (filter (\<lambda>c. c \<in> dictionary m \<or> c \<in> custom) cands))))"
  by (simp add: rankCandidates_def scoredEntries_eq)

lemma length_rankCandidates:
  "length (rankCandidates lc token cands m custom)
     = min 5 (length (filter (\<lambda>c. c \<in> dictionary m \<or> c \<in> custom) cands))"
  by (simp add: rankCandidates_eq length_arraySort min.commute)

lemma set_rankCandidates:
  "set (rankCandidates lc token cands m custom)
     \<subseteq> {c \<in> set cands. c \<in> dictionary m \<or> c \<in> custom}"
proof -
  let ?es = "map (\<lambda>c. (c, candidateScore lc m c))
               (filter (\<lambda>c. c \<in> dictionary m \<or> c \<in> custom) cands)"
  have "set (take 5 (arraySort compareScores ?es)) \<subseteq> set (arraySort compareScores ?es)"
    by (rule set_take_subset)
  then have "set (take 5 (arraySort compareScores ?es)) \<subseteq> set ?es"
    unfolding set_arraySort .
  then have "fst ` set (take 5 (arraySort compareScores ?es)) \<subseteq> fst ` set ?es"
    by (rule image_mono)
  moreover have "fst ` set ?es = {c \<in> set cands. c \<in> dictionary m \<or> c \<in> custom}"
    by (simp add: image_image)
  ultimately show ?thesis
    unfolding rankCandidates_eq set_map by simp
qed

text \<open>Finite scores: the sort is the stable sort by descending score.\<close>

lemma compareScores_finite:
  "isPositive (compareScores (a, Finite x) (b, Finite y)) \<longleftrightarrow> x < y"
  by (simp add: compareScores_def jsSubtract_def)

lemma sortInsert_finite:
  assumes "\<forall>e\<in>set (x # ys). \<exists>r. snd e = Finite r"
  shows "sortInsert compareScores x ys = insort_key (\<lambda>e. - finiteValue (snd e)) x ys"
  using assms
proof (induction ys)
  case Nil
  then show ?case by simp
next
  case (Cons y ys)
  obtain a r where x: "x = (a, Finite r)" using Cons.prems by (cases x) auto
  obtain b q where y: "y = (b, Finite q)" using Cons.prems by (cases y) auto
  have "sortInsert compareScores x ys = insort_key (\<lambda>e. - finiteValue (snd e)) x ys"
    using Cons by simp
  then show ?case
    by (simp add: x y compareScores_finite not_less)
qed

lemma arraySort_finite:
  assumes "\<forall>e\<in>set xs. \<exists>r. snd e = Finite r"
  shows "arraySort compareScores xs = sort_key (\<lambda>e. - finiteValue (snd e)) xs"
  using assms
proof (induction xs)
  case Nil
  then show ?case by (simp add: arraySort_Nil)
next
  case (Cons x xs)
  then have ih: "arraySort compareScores xs = sort_key (\<lambda>e. - finiteValue (snd e)) xs"
    by simp
  have "\<forall>e\<in>set (x # sort_key (\<lambda>e. - finiteValue (snd e)) xs). \<exists>r. snd e = Finite r"
    using Cons.prems by simp
  then show ?case
    by (simp add: arraySort_Cons ih sortInsert_finite)
qed

lemma candidateScore_number:
  assumes "case frequencies m c of Some f \<Rightarrow> 0 < f | None \<Rightarrow> c \<notin> objectPrototypeKeys"
  shows "candidateScore lc m c
     = Finite (scoreWord lc c (bigramScores m)
               + ln (case frequencies m c of None \<Rightarrow> 1 | Some f \<Rightarrow> f))"
  using assms
  by (auto simp: candidateScore_def getProperty_def mathLog_def split: option.splits)

lemma candidateScore_entry:
  assumes "frequencies m c = Some f" and "0 < f"
  shows "candidateScore lc m c = Finite (scoreWord lc c (bigramScores m) + ln f)"
  using assms by (simp add: candidateScore_number)

lemma candidateScore_default:
  assumes "frequencies m c = None" and "c \<notin> objectPrototypeKeys"
  shows "candidateScore lc m c = Finite (scoreWord lc c (bigramScores m) + ln 1)"
  using assms by (simp add: candidateScore_number)

lemma sorted_by_score:
  fixes f :: "'a \<Rightarrow> real"
  assumes "sorted (map (\<lambda>e. - finiteValue (snd e)) es)"
    and "\<forall>e\<in>set es. finiteValue (snd e) = f (fst e)"
  shows "sorted_wrt (\<lambda>a b. f b \<le> f a) (map fst es)"
proof -
  have "map (\<lambda>e. - finiteValue (snd e)) es = map (\<lambda>c. - f c) (map fst es)"
    using assms(2) by (induction es) simp_all
  with assms(1) have "sorted (map (\<lambda>c. - f c) (map fst es))"
    by simp
  then have "sorted_wrt (\<lambda>a b. - f a \<le> - f b) (map fst es)"
    unfolding sorted_map .
  then show ?thesis by simp
qed

lemma rankCandidates_sorted_numbers:
  assumes "\<forall>c\<in>set cands. c \<in> dictionary m \<or> c \<in> custom \<longrightarrow>
             (case frequencies m c of Some f \<Rightarrow> 0 < f | None \<Rightarrow> c \<notin> objectPrototypeKeys)"
  shows "sorted_wrt
     (\<lambda>a b. scoreWord lc b (bigramScores m) + ln (case frequencies m b of None \<Rightarrow> 1 | Some f \<Rightarrow> f)
           \<le> scoreWord lc a (bigramScores m) + ln (case frequencies m a of None \<Rightarrow> 1 | Some f \<Rightarrow> f))
     (rankCandidates lc token cands m custom)"
proof -
  let ?known = "filter (\<lambda>c. c \<in> dictionary m \<or> c \<in> custom) cands"
  let ?es = "map (\<lambda>c. (c, candidateScore lc m c)) ?known"
  let ?f = "\<lambda>c. scoreWord lc c (bigramScores m)
                 + ln (case frequencies m c of None \<Rightarrow> 1 | Some f \<Rightarrow> f)"
  have num: "\<forall>c\<in>set ?known. candidateScore lc m c = Finite (?f c)"
    using assms by (auto intro: candidateScore_number)
  then have fin: "\<forall>e\<in>set ?es. \<exists>r. snd e = Finite r"
    by auto
  let ?top = "take 5 (sort_key (\<lambda>e. - finiteValue (snd e)) ?es)"
  have "sorted (map (\<lambda>e. - finiteValue (snd e)) (sort_key (\<lambda>e. - finiteValue (snd e)) ?es))"
    by (rule sorted_sort_key)
  then have "sorted (take 5 (map (\<lambda>e. - finiteValue (snd e))
                (sort_key (\<lambda>e. - finiteValue (snd e)) ?es)))"
    by (rule sorted_wrt_take)
  then have s: "sorted (map (\<lambda>e. - finiteValue (snd e)) ?top)"
    unfolding take_map .
  have "set ?top \<subseteq> set (sort_key (\<lambda>e. - finiteValue (snd e)) ?es)"
    by (rule set_take_subset)
  then have "set ?top \<subseteq> set ?es"
    unfolding set_sort .
  moreover have "\<forall>e\<in>set ?es. finiteValue (snd e) = ?f (fst e)"
    using num by auto
  ultimately have "\<forall>e\<in>set ?top. finiteValue (snd e) = ?f (fst e)"
    by blast
  with s have "sorted_wrt (\<lambda>a b. ?f b \<le> ?f a) (map fst ?top)"
    by (rule sorted_by_score)
  then show ?thesis
    unfolding rankCandidates_eq arraySort_finite [OF fin] .
qed

lemma rankCandidates_known:
  "x \<in> set (rankCandidates lc token cands m custom) \<Longrightarrow> x \<in> dictionary m \<or> x \<in> custom"
  using set_rankCandidates [of lc token cands m custom] by auto

lemma rankCandidates_empty_iff:
  "rankCandidates lc token cands m custom = []
     \<longleftrightarrow> (\<forall>c\<in>set cands. c \<notin> dictionary m \<and> c \<notin> custom)"
proof -
  have "rankCandidates lc token cands m custom = []
      \<longleftrightarrow> length (rankCandidates lc token cands m custom) = 0"
    by simp
  also have "\<dots> \<longleftrightarrow> filter (\<lambda>c. c \<in> dictionary m \<or> c \<in> custom) cands = []"
    unfolding length_rankCandidates by (auto simp: min_def)
  also have "\<dots> \<longleftrightarrow> (\<forall>c\<in>set cands. c \<notin> dictionary m \<and> c \<notin> custom)"
    by (simp add: filter_empty_conv)
  finally show ?thesis .
qed

subsection \<open>The correction service\<close>

lemma resolveOptions_frame:
  assumes "resolveOptions env s = (r, s1, c1)"
  shows "modelCache s1 = modelCache s"
    and "c1 = (if enabled (currentOptions s) then [] else [CallLoadOptions])"
  using assms
  by (auto simp: resolveOptions_def loadOptions_def split: if_splits sum.splits)

lemma resolveOptions_disabled:
  assumes "resolveOptions env s = (Inr opts, s1, c1)" and "\<not> enabled opts"
  shows "\<not> enabled (currentOptions s)" and "storageGet env = Inr opts"
    and "s1 = s\<lparr>currentOptions := opts\<rparr>" and "c1 = [CallLoadOptions]"
  using assms
  by (auto simp: resolveOptions_def loadOptions_def split: if_splits sum.splits)


lemma buildModel_dictionary:
  assumes "buildModel lc data = Inr m" and "\<And>x. lc (lc x) = lc x" and "w \<in> dictionary m"
  shows "lc w = w"
  using assms by (auto simp: buildModel_def split: option.splits)

lemma suggestCorrections_loaded:
  assumes "resolveOptions env s = (Inr opts, s1, c1)" and "enabled opts"
    and "loadModel lc env s1 (language opts) = (Inr m, s2, c2)"
  shows "suggestCorrections lc env s (Str t) =
     (if lc t = [] \<or> lc t \<in> dictionary m \<or> lc t \<in> parseCustomWords lc (customWords opts)
      then (Inr assumeCorrect, s2, c1 @ CallLoadModel # c2)
      else (Inr \<lparr>isCorrect =
                   (rankCandidates lc (lc t) (editDistanceOne (lc t)) m
                      (parseCustomWords lc (customWords opts)) = []),
                 suggestions =
                   rankCandidates lc (lc t) (editDistanceOne (lc t)) m
                      (parseCustomWords lc (customWords opts))\<rparr>,
            s2, c1 @ CallLoadModel # c2 @ [CallEditDistanceOne, CallRankCandidates]))"
  using assms by (simp add: suggestCorrections_def Let_def)

lemma suggestions_not_token:
  assumes "suggestCorrections lc env s (Str t) = (Inr v, s', cs)"
  shows "lc t \<notin> set (suggestions v)"
  using assms
  by (auto simp: suggestCorrections_def Let_def assumeCorrect_def
      split: prod.splits sum.splits if_splits dest: rankCandidates_known)

lemma onMessage_failure:
  assumes "suggestCorrections lc env s tok = (Inl e, s', cs)"
  shows "onMessage lc env s tok = ((tok, \<lparr>isCorrect = True, suggestions = []\<rparr>), s', cs)"
  using assms by (simp add: onMessage_def)

lemma onMessage_result:
  assumes "suggestCorrections lc env s tok = (Inr v, s', cs)"
  shows "onMessage lc env s tok = ((tok, v), s', cs)"
  using assms by (simp add: onMessage_def)

lemma onMessage_not_a_string:
  "fst (onMessage lc env s NotAString) = (NotAString, \<lparr>isCorrect = True, suggestions = []\<rparr>)"
  by (auto simp: onMessage_def suggestCorrections_def Let_def assumeCorrect_def
      split: prod.splits sum.splits)

lemma onMessage_empty_token:
  assumes "lc [] = []"
  shows "fst (onMessage lc env s (Str [])) = (Str [], \<lparr>isCorrect = True, suggestions = []\<rparr>)"
  using assms
  by (auto simp: onMessage_def suggestCorrections_def Let_def assumeCorrect_def
      split: prod.splits sum.splits)

lemma onMessage_loaded:
  assumes "resolveOptions env s = (Inr opts, s1, c1)" and "enabled opts"
    and "loadModel lc env s1 (language opts) = (Inr m, s2, c2)"
  shows "fst (onMessage lc env s (Str t)) = (Str t, \<lparr>isCorrect = True, suggestions = []\<rparr>)
     \<longleftrightarrow> lc t = [] \<or> lc t \<in> dictionary m \<or> lc t \<in> parseCustomWords lc (customWords opts)
         \<or> (\<forall>c\<in>set (editDistanceOne (lc t)).
               c \<notin> dictionary m \<and> c \<notin> parseCustomWords lc (customWords opts))"
proof (cases "lc t = [] \<or> lc t \<in> dictionary m \<or> lc t \<in> parseCustomWords lc (customWords opts)")
  case True
  then have "fst (onMessage lc env s (Str t)) = (Str t, \<lparr>isCorrect = True, suggestions = []\<rparr>)"
    by (simp add: onMessage_def suggestCorrections_loaded [OF assms] assumeCorrect_def)
  with True show ?thesis by blast
next
  case False
  then have "fst (onMessage lc env s (Str t))
      = (Str t, \<lparr>isCorrect =
                   (rankCandidates lc (lc t) (editDistanceOne (lc t)) m
                      (parseCustomWords lc (customWords opts)) = []),
                 suggestions =
                   rankCandidates lc (lc t) (editDistanceOne (lc t)) m
                      (parseCustomWords lc (customWords opts))\<rparr>)"
    by (simp add: onMessage_def suggestCorrections_loaded [OF assms])
  then have "fst (onMessage lc env s (Str t)) = (Str t, \<lparr>isCorrect = True, suggestions = []\<rparr>)
     \<longleftrightarrow> rankCandidates lc (lc t) (editDistanceOne (lc t)) m
           (parseCustomWords lc (customWords opts)) = []"
    by auto
  with False show ?thesis
    by (simp add: rankCandidates_empty_iff)
qed


lemma onMessage_miss:
  assumes "resolveOptions env s = (Inr opts, s1, c1)" and "enabled opts"
    and "loadModel lc env s1 (language opts) = (Inr m, s2, c2)"
    and "lc t \<noteq> []" and "lc t \<notin> dictionary m"
    and "lc t \<notin> parseCustomWords lc (customWords opts)"
  shows "fst (onMessage lc env s (Str t))
      = (Str t, \<lparr>isCorrect =
                   (rankCandidates lc (lc t) (editDistanceOne (lc t)) m
                      (parseCustomWords lc (customWords opts)) = []),
                 suggestions =
                   rankCandidates lc (lc t) (editDistanceOne (lc t)) m
                      (parseCustomWords lc (customWords opts))\<rparr>)"
  using assms(4-6)
  by (simp add: onMessage_def suggestCorrections_loaded [OF assms(1-3)])

subsection \<open>Evaluation at the concrete inputs\<close>

lemma toLowerCaseLatin1_lower [simp]:
  "toLowerCaseLatin1 [] = []"
  "toLowerCaseLatin1 [97] = [97]"
  "toLowerCaseLatin1 [97, 98] = [97, 98]"
  "toLowerCaseLatin1 [97, 99] = [97, 99]"
  "toLowerCaseLatin1 [122, 121] = [122, 121]"
  by (simp_all add: toLowerCaseLatin1_def lowerUnit_def)

lemma lower_space [simp]: "toLowerCaseLatin1 [32] = [32]"
  by (simp add: toLowerCaseLatin1_def lowerUnit_def)

lemma parse_no_custom [simp]: "parseCustomWords toLowerCaseLatin1 [] = {}"
  by (simp add: parseCustomWords_def trim_def toLowerCaseLatin1_def)

lemma example_resolve:
  "resolveOptions env initialState = (Inr defaultOptions, initialState, [])"
  by (simp add: resolveOptions_def initialState_def defaultOptions_def)

lemma example_build: "buildModel toLowerCaseLatin1 exampleData = Inr exampleLexicon"
  by (simp add: buildModel_def exampleData_def exampleLexicon_def)

lemma example_url: "getModelUrl (language defaultOptions) = ''models/model.json''"
  by (simp add: getModelUrl_def defaultOptions_def)

lemma example_load:
  "loadModel toLowerCaseLatin1 exampleEnv initialState (language defaultOptions)
     = (Inr exampleLexicon, loadedState, [CallFetch ''models/model.json''])"
  by (simp add: loadModel_def example_url Let_def exampleEnv_def example_build loadedState_def
      initialState_def)

lemma space_candidates:
  "filter (\<lambda>c. c = [97]) (editDistanceOne [32]) = [[97]]"
  by (simp add: editDistanceOne_def newSet_def setAdd_def deletes_def
      transposes_def replaces_def inserts_def splits_def slice_def sliceFrom_def letters_def upt_rec)

lemma space_ranked:
  "rankCandidates toLowerCaseLatin1 [32] (editDistanceOne [32]) exampleLexicon {} = [[97]]"
  by (simp add: rankCandidates_eq exampleLexicon_def space_candidates arraySort_Cons arraySort_Nil)

lemma space_suggest:
  "suggestCorrections toLowerCaseLatin1 exampleEnv initialState (Str [32])
     = (Inr \<lparr>isCorrect = False, suggestions = [[97]]\<rparr>, loadedState,
        [CallLoadModel, CallFetch ''models/model.json'', CallEditDistanceOne, CallRankCandidates])"
proof -
  have en: "enabled defaultOptions" by (simp add: defaultOptions_def)
  have cw: "customWords defaultOptions = []" by (simp add: defaultOptions_def)
  have nd: "[32] \<notin> dictionary exampleLexicon" by (simp add: exampleLexicon_def)
  show ?thesis
    by (simp add: suggestCorrections_loaded [OF example_resolve en example_load] cw nd space_ranked)
qed



lemma cached_resolve:
  "resolveOptions env cachedState = (Inr defaultOptions, cachedState, [])"
  by (simp add: resolveOptions_def cachedState_def initialState_def defaultOptions_def)

lemma cached_load:
  "loadModel lc env cachedState (language defaultOptions) = (Inr exampleModel, cachedState, [])"
  using example_url by (simp add: loadModel_def Let_def cachedState_def)

lemma space_no_two_letter_word:
  "\<forall>c\<in>set (editDistanceOne [32]). c \<notin> {[97, 98], [97, 99]}"
proof
  fix c assume c: "c \<in> set (editDistanceOne [32])"
  have "32 \<in> set c \<or> length c < 2"
    using c unfolding set_editDistanceOne deletes_index transposes_index replaces_index inserts_index
    by (auto simp: upt_rec)
  then show "c \<notin> {[97, 98], [97, 99]}" by auto
qed

lemma disabled_resolve:
  "resolveOptions disabledEnv disabledState = (Inr disabledOptions, disabledState, [CallLoadOptions])"
  by (simp add: resolveOptions_def loadOptions_def disabledEnv_def disabledState_def
      disabledOptions_def initialState_def defaultOptions_def exampleEnv_def)

lemma offline_load:
  "loadModel lc offlineEnv initialState (language defaultOptions)
     = (Inl FetchError, initialState\<lparr>modelCache := [''models/model.json'' \<mapsto> Inl FetchError]\<rparr>,
        [CallFetch ''models/model.json''])"
  using example_url by (simp add: loadModel_def Let_def offlineEnv_def initialState_def)

lemma broken_load:
  "loadModel lc brokenEnv initialState (language defaultOptions)
     = (Inl TypeError, initialState\<lparr>modelCache := [''models/model.json'' \<mapsto> Inl TypeError]\<rparr>,
        [CallFetch ''models/model.json''])"
  using example_url
  by (simp add: loadModel_def Let_def brokenEnv_def initialState_def buildModel_def)

lemma b_candidates: "filter (\<lambda>c. c = [97]) (editDistanceOne [98]) = [[97]]"
  by (simp add: editDistanceOne_def newSet_def setAdd_def deletes_def
      transposes_def replaces_def inserts_def splits_def slice_def sliceFrom_def letters_def upt_rec)

lemma b_suggest:
  "suggestCorrections toLowerCaseLatin1 exampleEnv initialState (Str [98])
     = (Inr \<lparr>isCorrect = False, suggestions = [[97]]\<rparr>, loadedState,
        [CallLoadModel, CallFetch ''models/model.json'', CallEditDistanceOne, CallRankCandidates])"
proof -
  have en: "enabled defaultOptions" by (simp add: defaultOptions_def)
  have cw: "customWords defaultOptions = []" by (simp add: defaultOptions_def)
  have lb: "toLowerCaseLatin1 [98] = [98]" by (simp add: toLowerCaseLatin1_def lowerUnit_def)
  have rk: "rankCandidates toLowerCaseLatin1 [98] (editDistanceOne [98]) exampleLexicon {} = [[97]]"
    by (simp add: rankCandidates_eq exampleLexicon_def b_candidates arraySort_Cons arraySort_Nil)
  have nd: "[98] \<notin> dictionary exampleLexicon" by (simp add: exampleLexicon_def)
  show ?thesis
    by (simp add: suggestCorrections_loaded [OF example_resolve en example_load] cw nd lb rk)
qed

lemma constructo_deleted:
  "filter (\<lambda>c. c = str ''construct'' \<or> c = str ''constructor'') (deletes (str ''constructo''))
     = [str ''construct'']"
  by (simp add: deletes_index upt_rec)

lemma constructo_transposed:
  "filter (\<lambda>c. c = str ''construct'' \<or> c = str ''constructor'') (transposes (str ''constructo''))
     = []"
  by (auto simp: filter_empty_conv dest: length_transposed)

lemma constructo_replaced:
  "filter (\<lambda>c. c = str ''construct'' \<or> c = str ''constructor'') (replaces (str ''constructo''))
     = []"
  by (auto simp: filter_empty_conv dest: length_replaced)

lemma constructo_inserted:
  "filter (\<lambda>c. c = str ''construct'' \<or> c = str ''constructor'') (inserts (str ''constructo''))
     = [str ''constructor'']"
proof -
  have "filter (\<lambda>c. c = str ''construct'' \<or> c = str ''constructor'')
          (concat (map (\<lambda>i. map (\<lambda>c. take i (str ''constructo'') @ [c] @ drop i (str ''constructo''))
                            letters) [0..<length (str ''constructo'')])) = []"
    unfolding filter_empty_conv
  proof
    fix x
    assume "x \<in> set (concat (map (\<lambda>i. map (\<lambda>c. take i (str ''constructo'') @ [c]
                @ drop i (str ''constructo'')) letters) [0..<length (str ''constructo'')]))"
    then have "last x = last (str ''constructo'')"
      by (rule last_inserted_inside)
    then show "\<not> (x = str ''construct'' \<or> x = str ''constructor'')"
      by auto
  qed
  moreover have "filter (\<lambda>c. c = str ''construct'' \<or> c = str ''constructor'')
          (map (\<lambda>c. str ''constructo'' @ [c]) letters) = [str ''constructor'']"
    by (simp add: letters_def)
  ultimately show ?thesis
    unfolding inserts_split filter_append by simp
qed

lemma constructo_known:
  "filter (\<lambda>c. c = str ''construct'' \<or> c = str ''constructor'')
     (editDistanceOne (str ''constructo''))
     = [str ''construct'', str ''constructor'']"
  unfolding editDistanceOne_def filter_newSet filter_append
    constructo_deleted constructo_transposed constructo_replaced constructo_inserted
  by (simp add: newSet_def setAdd_def)

lemma constructor_scores:
  "scoreWord toLowerCaseLatin1 (str ''construct'') (bigramScores constructorModel) = - 12"
  "scoreWord toLowerCaseLatin1 (str ''constructor'') (bigramScores constructorModel) = - 11.5"
  by (simp_all add: scoreWord_def slice_def constructorModel_def toLowerCaseLatin1_def
      lowerUnit_def upt_rec)

lemma constructor_inherited: "str ''constructor'' \<in> objectPrototypeKeys"
  "str ''construct'' \<notin> objectPrototypeKeys"
  by (simp_all add: objectPrototypeKeys_def)

lemma constructor_candidateScores:
  "candidateScore toLowerCaseLatin1 constructorModel (str ''construct'') = Finite (- 12)"
  "candidateScore toLowerCaseLatin1 constructorModel (str ''constructor'') = NotANumber"
  using constructor_scores constructor_inherited
  by (simp_all add: candidateScore_def getProperty_def mathLog_def)
     (simp_all add: constructorModel_def)

lemma constructor_ranked:
  "arraySort compareScores [(str ''construct'', Finite (- 12)), (str ''constructor'', NotANumber)]
     = [(str ''construct'', Finite (- 12)), (str ''constructor'', NotANumber)]"
  by (simp add: arraySort_Cons arraySort_Nil compareScores_def jsSubtract_def)

lemma constructor_build: "buildModel toLowerCaseLatin1 constructorData = Inr constructorModel"
  by (simp add: buildModel_def constructorData_def constructorModel_def toLowerCaseLatin1_def
      lowerUnit_def)

lemma constructor_load:
  "loadModel toLowerCaseLatin1 constructorEnv initialState (language defaultOptions)
     = (Inr constructorModel,
        initialState\<lparr>modelCache := [''models/model.json'' \<mapsto> Inr constructorModel]\<rparr>,
        [CallFetch ''models/model.json''])"
  using example_url
  by (simp add: loadModel_def Let_def constructorEnv_def constructor_build initialState_def)

section \<open>The claims\<close>

text \<open>
  C1. The claim gives a candidate with no entry in \<open>lexicon.frequencies\<close> the frequency 1,
  and the code writes that default (\<open>?? 1\<close>). For the dictionary word "constructor" the lookup
  finds the property every object inherits, \<open>Math.log\<close> of it is NaN, and so is the score:
  the ranker returns "construct" before "constructor", where the scores of the claim (-12
  and -11.5) put "constructor" first. The token "constructo" reaches both candidates.
\<close>

theorem rankCandidates_inherited_frequency:
  "frequencies constructorModel (str ''constructor'') = None
   \<and> scoredEntries toLowerCaseLatin1 constructorModel {} [str ''construct'', str ''constructor''] []
       = [(str ''construct'', Finite (- 12)), (str ''constructor'', NotANumber)]
   \<and> rankCandidates toLowerCaseLatin1 (str ''constructo'') [str ''construct'', str ''constructor'']
         constructorModel {}
       = [str ''construct'', str ''constructor'']
   \<and> scoreWord toLowerCaseLatin1 (str ''construct'') (bigramScores constructorModel) + ln 1 = - 12
   \<and> scoreWord toLowerCaseLatin1 (str ''constructor'') (bigramScores constructorModel) + ln 1
       = - 11.5
   \<and> fst (onMessage toLowerCaseLatin1 constructorEnv initialState (Str (str ''constructo'')))
       = (Str (str ''constructo''),
          \<lparr>isCorrect = False, suggestions = [str ''construct'', str ''constructor'']\<rparr>)"
proof -
  have none: "frequencies constructorModel (str ''constructor'') = None"
    by (simp add: constructorModel_def)
  have dict: "dictionary constructorModel = {str ''construct'', str ''constructor''}"
    by (simp add: constructorModel_def)
  have entries: "scoredEntries toLowerCaseLatin1 constructorModel {}
        [str ''construct'', str ''constructor''] []
       = [(str ''construct'', Finite (- 12)), (str ''constructor'', NotANumber)]"
    using constructor_candidateScores by (simp add: scoredEntries_eq dict)
  have ranked: "rankCandidates toLowerCaseLatin1 (str ''constructo'')
        [str ''construct'', str ''constructor''] constructorModel {}
       = [str ''construct'', str ''constructor'']"
    using constructor_ranked entries by (simp add: rankCandidates_def)
  have pipeline: "rankCandidates toLowerCaseLatin1 (str ''constructo'')
        (editDistanceOne (str ''constructo'')) constructorModel {}
       = [str ''construct'', str ''constructor'']"
    using constructor_ranked constructor_candidateScores constructo_known
    by (simp add: rankCandidates_eq dict)
  have en: "enabled defaultOptions" by (simp add: defaultOptions_def)
  have cw: "customWords defaultOptions = []" by (simp add: defaultOptions_def)
  have low: "toLowerCaseLatin1 (str ''constructo'') = str ''constructo''"
    by (simp add: toLowerCaseLatin1_def lowerUnit_def)
  have "suggestCorrections toLowerCaseLatin1 constructorEnv initialState (Str (str ''constructo''))
     = (Inr \<lparr>isCorrect = False, suggestions = [str ''construct'', str ''constructor'']\<rparr>,
        initialState\<lparr>modelCache := [''models/model.json'' \<mapsto> Inr constructorModel]\<rparr>,
        [CallLoadModel, CallFetch ''models/model.json'', CallEditDistanceOne, CallRankCandidates])"
    using pipeline low
    by (simp add: suggestCorrections_loaded [OF example_resolve en constructor_load] cw dict)
  then have "fst (onMessage toLowerCaseLatin1 constructorEnv initialState (Str (str ''constructo'')))
       = (Str (str ''constructo''),
          \<lparr>isCorrect = False, suggestions = [str ''construct'', str ''constructor'']\<rparr>)"
    by (simp add: onMessage_def)
  with none entries ranked constructor_scores show ?thesis
    by simp
qed

text \<open>
  C2. For a lowercased word of length n at least 2 the bigram score is the sum, over the
  n - 1 adjacent two-character windows, of the table's entry for the window, a window
  with no entry counting -1.5; for a word shorter than 2 the score is 0; the word "xq"
  with no entry for "xq" scores exactly -1.5.
\<close>

theorem scoreWord_sum:
  assumes "lc w = w"
  shows "(2 \<le> length w \<longrightarrow>
            scoreWord lc w tbl =
              (\<Sum>i<length w - 1. case tbl (slice i (i + 2) w) of None \<Rightarrow> - 1.5 | Some v \<Rightarrow> v))
       \<and> (length w < 2 \<longrightarrow> scoreWord lc w tbl = 0)
       \<and> (w = str ''xq'' \<and> tbl (str ''xq'') = None \<longrightarrow> scoreWord lc w tbl = - 1.5)"
proof -
  have eq: "scoreWord lc w tbl =
      (if length w < 2 then 0
       else (\<Sum>i<length w - 1. case tbl (slice i (i + 2) w) of None \<Rightarrow> - 1.5 | Some v \<Rightarrow> v))"
    using assms by (simp add: scoreWord_def Let_def foldl_add_sum)
  have xq: "scoreWord lc w tbl = - 1.5" if "w = str ''xq''" and "tbl (str ''xq'') = None"
    using that eq by (simp add: slice_def)
  show ?thesis
    using eq xq by simp
qed

theorem scoreWord_sum_witness:
  "toLowerCaseLatin1 (str ''xq'') = str ''xq''
   \<and> scoreWord toLowerCaseLatin1 (str ''xq'') Map.empty = - 1.5
   \<and> toLowerCaseLatin1 (str ''hel'') = str ''hel''
   \<and> scoreWord toLowerCaseLatin1 (str ''hel'') [str ''he'' \<mapsto> - 0.5] = - 2
   \<and> scoreWord toLowerCaseLatin1 (str ''a'') [str ''he'' \<mapsto> - 0.5] = 0"
proof -
  have main:
    "toLowerCaseLatin1 [120, 113] = [120, 113]
     \<and> scoreWord toLowerCaseLatin1 [120, 113] Map.empty = - 1.5
     \<and> toLowerCaseLatin1 [104, 101, 108] = [104, 101, 108]
     \<and> scoreWord toLowerCaseLatin1 [104, 101, 108] [[104, 101] \<mapsto> - 0.5] = - 2
     \<and> scoreWord toLowerCaseLatin1 [97] [[104, 101] \<mapsto> - 0.5] = 0"
  proof -
    have l1: "toLowerCaseLatin1 [120, 113] = [120, 113]"
      and l2: "toLowerCaseLatin1 [104, 101, 108] = [104, 101, 108]"
      and l3: "toLowerCaseLatin1 [97] = [97]"
      by (simp_all add: toLowerCaseLatin1_def lowerUnit_def)
    have "scoreWord toLowerCaseLatin1 [120, 113] Map.empty = - 1.5"
      using scoreWord_sum [of toLowerCaseLatin1 "[120, 113]" Map.empty] l1 by simp
    moreover have "scoreWord toLowerCaseLatin1 [104, 101, 108] [[104, 101] \<mapsto> - 0.5] = - 2"
      using scoreWord_sum [of toLowerCaseLatin1 "[104, 101, 108]" "[[104, 101] \<mapsto> - 0.5]"] l2
      by (simp add: slice_def lessThan_Suc numeral_2_eq_2)
    moreover have "scoreWord toLowerCaseLatin1 [97] [[104, 101] \<mapsto> - 0.5] = 0"
      using scoreWord_sum [of toLowerCaseLatin1 "[97]" "[[104, 101] \<mapsto> - 0.5]"] l3 by simp
    ultimately show ?thesis
      using l1 l2 by simp
  qed
  then show ?thesis by simp
qed

text \<open>
  C3. \<open>editDistanceOne\<close> is the duplicate-free set built from the splits of the word at the
  indices 0 to n: the n deletions, the n - 1 transpositions of adjacent characters, the
  n times a substitutions and the (n + 1) times a insertions of a letter of the alphabet,
  whose size a is 43. The empty word yields the a insertions only, and a word of one
  character has no transposition.
\<close>

theorem editDistanceOne_families:
  "splits w = map (\<lambda>i. (take i w, drop i w)) [0..<length w + 1]
   \<and> editDistanceOne w = newSet (deletes w @ transposes w @ replaces w @ inserts w)
   \<and> distinct (editDistanceOne w)
   \<and> set (editDistanceOne w)
       = set (deletes w) \<union> set (transposes w) \<union> set (replaces w) \<union> set (inserts w)
   \<and> deletes w = map (\<lambda>i. take i w @ drop (i + 1) w) [0..<length w]
   \<and> transposes w
       = map (\<lambda>i. take i w @ [w ! (i + 1), w ! i] @ drop (i + 2) w) [0..<length w - 1]
   \<and> replaces w
       = concat (map (\<lambda>i. map (\<lambda>c. take i w @ [c] @ drop (i + 1) w) letters) [0..<length w])
   \<and> inserts w
       = concat (map (\<lambda>i. map (\<lambda>c. take i w @ [c] @ drop i w) letters) [0..<length w + 1])
   \<and> length (deletes w) = length w
   \<and> length (transposes w) = length w - 1
   \<and> length (replaces w) = length w * length letters
   \<and> length (inserts w) = (length w + 1) * length letters
   \<and> length letters = 43
   \<and> editDistanceOne [] = map (\<lambda>c. [c]) letters
   \<and> transposes [c] = []"
proof -
  have "splits w = map (\<lambda>i. (take i w, drop i w)) [0..<length w + 1]"
    using splits_index [of w] by simp
  moreover have "editDistanceOne w = newSet (deletes w @ transposes w @ replaces w @ inserts w)"
    by (simp add: editDistanceOne_def)
  moreover have "distinct (editDistanceOne w)"
    by (simp add: editDistanceOne_def distinct_newSet)
  moreover have "deletes w = map (\<lambda>i. take i w @ drop (i + 1) w) [0..<length w]"
    using deletes_index [of w] by simp
  moreover have "transposes w
       = map (\<lambda>i. take i w @ [w ! (i + 1), w ! i] @ drop (i + 2) w) [0..<length w - 1]"
    using transposes_index [of w] by simp
  moreover have "replaces w
       = concat (map (\<lambda>i. map (\<lambda>c. take i w @ [c] @ drop (i + 1) w) letters) [0..<length w])"
    using replaces_index [of w] by simp
  moreover have "inserts w
       = concat (map (\<lambda>i. map (\<lambda>c. take i w @ [c] @ drop i w) letters) [0..<length w + 1])"
    using inserts_index [of w] by simp
  ultimately show ?thesis
    using set_editDistanceOne [of w] length_deletes [of w] length_transposes [of w]
      length_replaces [of w] length_inserts [of w] length_letters editDistanceOne_empty
      transposes_single [of c]
    by blast
qed



text \<open>
  C5, as stated: for a non-empty word, the candidates never contain the word itself. The
  word "a" is among its own candidates (the substitution of "a" for "a").
\<close>

theorem own_spelling_counterexample:
  "str ''a'' \<noteq> [] \<and> str ''a'' \<in> set (editDistanceOne (str ''a''))"
proof -
  have main:
    "[97] \<noteq> [] \<and> [97] \<in> set (editDistanceOne [97])"
    using word_own_candidate_iff [of "[97]"] by (simp add: letters_def)
  then show ?thesis by simp
qed

text \<open>
  C5, amended: for a non-empty word, the candidates contain the word itself exactly when
  one of its characters is a letter of the alphabet (substituting it for itself) or two
  adjacent characters are equal (transposing them).
\<close>

theorem own_spelling_iff:
  assumes "w \<noteq> []"
  shows "w \<in> set (editDistanceOne w)
     \<longleftrightarrow> (\<exists>i<length w. w ! i \<in> set letters) \<or> (\<exists>i. i + 1 < length w \<and> w ! i = w ! (i + 1))"
  using word_own_candidate_iff [of w] by simp

theorem own_spelling_iff_witness:
  "str ''b'' \<noteq> [] \<and> str ''b'' \<in> set (editDistanceOne (str ''b''))
   \<and> str '' '' \<noteq> [] \<and> str '' '' \<notin> set (editDistanceOne (str '' ''))
   \<and> str ''  '' \<noteq> [] \<and> str ''  '' \<in> set (editDistanceOne (str ''  ''))"
proof -
  have main:
    "[98] \<noteq> [] \<and> [98] \<in> set (editDistanceOne [98])
     \<and> [32] \<noteq> [] \<and> [32] \<notin> set (editDistanceOne [32])
     \<and> [32, 32] \<noteq> [] \<and> [32, 32] \<in> set (editDistanceOne [32, 32])"
  proof -
    have "[98] \<in> set (editDistanceOne [98])"
      using own_spelling_iff [of "[98]"] by (simp add: letters_def)
    moreover have "[32] \<notin> set (editDistanceOne [32])"
      using own_spelling_iff [of "[32]"] by (simp add: letters_def)
    moreover have "[32, 32] \<in> set (editDistanceOne [32, 32])"
    proof -
      have "(0::nat) + 1 < length [32 :: nat, 32] \<and> [32 :: nat, 32] ! 0 = [32, 32] ! (0 + 1)" by simp
      then have "\<exists>i. i + 1 < length [32 :: nat, 32] \<and> [32 :: nat, 32] ! i = [32, 32] ! (i + 1)" by blast
      then show ?thesis using own_spelling_iff [of "[32, 32]"] by blast
    qed
    ultimately show ?thesis by simp
  qed
  then show ?thesis by simp
qed

text \<open>
  C6, as stated: an empty or whitespace-only token gets \<open>{isCorrect: true, suggestions: []}\<close>
  for every lexicon and custom word set. With the word "a" in the dictionary, the token
  made of one space gets \<open>isCorrect: false\<close> and the suggestion "a".
\<close>

theorem whitespace_token_counterexample:
  "isWhiteSpace 32 \<and> str '' '' = [32]
   \<and> fst (onMessage toLowerCaseLatin1 exampleEnv initialState (Str (str '' '')))
       = (Str (str '' ''), \<lparr>isCorrect = False, suggestions = [str ''a'']\<rparr>)"
proof -
  have main:
    "isWhiteSpace 32
     \<and> fst (onMessage toLowerCaseLatin1 exampleEnv initialState (Str [32]))
         = (Str [32], \<lparr>isCorrect = False, suggestions = [str ''a'']\<rparr>)"
    by (simp add: isWhiteSpace_def onMessage_def space_suggest)
  then show ?thesis by simp
qed

text \<open>
  C6, amended: the empty token gets \<open>{isCorrect: true, suggestions: []}\<close> in every state and
  environment. A whitespace-only token is not trimmed: with the options enabled and the
  lexicon loaded, it gets that verdict exactly when its lowercased form is empty, or is in
  the dictionary or the custom word set, or has no single-edit variant in either;
  otherwise it gets \<open>isCorrect: false\<close> and the ranker's list as suggestions, which holds at
  least one and at most five of its known single-edit variants.
\<close>

theorem blank_token_verdict:
  assumes "lc [] = []" and "\<forall>u\<in>set t. isWhiteSpace u"
  shows "(t = [] \<longrightarrow>
            fst (onMessage lc env s (Str t)) = (Str t, \<lparr>isCorrect = True, suggestions = []\<rparr>))
    \<and> (\<forall>opts s1 c1 m s2 c2.
          resolveOptions env s = (Inr opts, s1, c1) \<and> enabled opts
          \<and> loadModel lc env s1 (language opts) = (Inr m, s2, c2) \<longrightarrow>
          (fst (onMessage lc env s (Str t)) = (Str t, \<lparr>isCorrect = True, suggestions = []\<rparr>)
             \<longleftrightarrow> lc t = [] \<or> lc t \<in> dictionary m
                 \<or> lc t \<in> parseCustomWords lc (customWords opts)
                 \<or> (\<forall>c\<in>set (editDistanceOne (lc t)).
                       c \<notin> dictionary m \<and> c \<notin> parseCustomWords lc (customWords opts)))
          \<and> (lc t \<noteq> [] \<and> lc t \<notin> dictionary m
              \<and> lc t \<notin> parseCustomWords lc (customWords opts)
              \<and> (\<exists>c\<in>set (editDistanceOne (lc t)).
                    c \<in> dictionary m \<or> c \<in> parseCustomWords lc (customWords opts))
              \<longrightarrow>
                fst (onMessage lc env s (Str t))
                  = (Str t,
                     \<lparr>isCorrect = False,
                      suggestions = rankCandidates lc (lc t) (editDistanceOne (lc t)) m
                                      (parseCustomWords lc (customWords opts))\<rparr>)
                \<and> rankCandidates lc (lc t) (editDistanceOne (lc t)) m
                      (parseCustomWords lc (customWords opts)) \<noteq> []
                \<and> length (rankCandidates lc (lc t) (editDistanceOne (lc t)) m
                      (parseCustomWords lc (customWords opts))) \<le> 5
                \<and> set (rankCandidates lc (lc t) (editDistanceOne (lc t)) m
                      (parseCustomWords lc (customWords opts)))
                    \<subseteq> {c \<in> set (editDistanceOne (lc t)).
                         c \<in> dictionary m \<or> c \<in> parseCustomWords lc (customWords opts)}))"
proof -
  have empty: "t = [] \<longrightarrow>
      fst (onMessage lc env s (Str t)) = (Str t, \<lparr>isCorrect = True, suggestions = []\<rparr>)"
    using onMessage_empty_token [of lc env s] assms(1) by blast
  have loaded: "(fst (onMessage lc env s (Str t)) = (Str t, \<lparr>isCorrect = True, suggestions = []\<rparr>)
             \<longleftrightarrow> lc t = [] \<or> lc t \<in> dictionary m
                 \<or> lc t \<in> parseCustomWords lc (customWords opts)
                 \<or> (\<forall>c\<in>set (editDistanceOne (lc t)).
                       c \<notin> dictionary m \<and> c \<notin> parseCustomWords lc (customWords opts)))
          \<and> (lc t \<noteq> [] \<and> lc t \<notin> dictionary m
              \<and> lc t \<notin> parseCustomWords lc (customWords opts)
              \<and> (\<exists>c\<in>set (editDistanceOne (lc t)).
                    c \<in> dictionary m \<or> c \<in> parseCustomWords lc (customWords opts))
              \<longrightarrow>
                fst (onMessage lc env s (Str t))
                  = (Str t,
                     \<lparr>isCorrect = False,
                      suggestions = rankCandidates lc (lc t) (editDistanceOne (lc t)) m
                                      (parseCustomWords lc (customWords opts))\<rparr>)
                \<and> rankCandidates lc (lc t) (editDistanceOne (lc t)) m
                      (parseCustomWords lc (customWords opts)) \<noteq> []
                \<and> length (rankCandidates lc (lc t) (editDistanceOne (lc t)) m
                      (parseCustomWords lc (customWords opts))) \<le> 5
                \<and> set (rankCandidates lc (lc t) (editDistanceOne (lc t)) m
                      (parseCustomWords lc (customWords opts)))
                    \<subseteq> {c \<in> set (editDistanceOne (lc t)).
                         c \<in> dictionary m \<or> c \<in> parseCustomWords lc (customWords opts)})"
    if ro: "resolveOptions env s = (Inr opts, s1, c1)" and en: "enabled opts"
      and lm: "loadModel lc env s1 (language opts) = (Inr m, s2, c2)"
    for opts s1 c1 m s2 c2
  proof (intro conjI impI)
    show "fst (onMessage lc env s (Str t)) = (Str t, \<lparr>isCorrect = True, suggestions = []\<rparr>)
         \<longleftrightarrow> lc t = [] \<or> lc t \<in> dictionary m
             \<or> lc t \<in> parseCustomWords lc (customWords opts)
             \<or> (\<forall>c\<in>set (editDistanceOne (lc t)).
                   c \<notin> dictionary m \<and> c \<notin> parseCustomWords lc (customWords opts))"
      by (rule onMessage_loaded [OF ro en lm])
  next
    let ?custom = "parseCustomWords lc (customWords opts)"
    let ?ranked = "rankCandidates lc (lc t) (editDistanceOne (lc t)) m ?custom"
    assume miss: "lc t \<noteq> [] \<and> lc t \<notin> dictionary m \<and> lc t \<notin> ?custom
        \<and> (\<exists>c\<in>set (editDistanceOne (lc t)). c \<in> dictionary m \<or> c \<in> ?custom)"
    then have ne: "?ranked \<noteq> []"
      by (auto simp: rankCandidates_empty_iff)
    from miss have "fst (onMessage lc env s (Str t))
        = (Str t, \<lparr>isCorrect = (?ranked = []), suggestions = ?ranked\<rparr>)"
      by (intro onMessage_miss [OF ro en lm]) simp_all
    with ne show "fst (onMessage lc env s (Str t))
        = (Str t, \<lparr>isCorrect = False, suggestions = ?ranked\<rparr>)"
      by simp
    show "?ranked \<noteq> []" by (rule ne)
    show "length ?ranked \<le> 5" by (simp add: length_rankCandidates)
    show "set ?ranked \<subseteq> {c \<in> set (editDistanceOne (lc t)). c \<in> dictionary m \<or> c \<in> ?custom}"
      by (rule set_rankCandidates)
  qed
  from empty loaded show ?thesis by blast
qed

theorem blank_token_verdict_witness:
  "toLowerCaseLatin1 [] = []
   \<and> fst (onMessage toLowerCaseLatin1 exampleEnv initialState (Str []))
       = (Str [], \<lparr>isCorrect = True, suggestions = []\<rparr>)
   \<and> fst (onMessage toLowerCaseLatin1 exampleEnv cachedState (Str (str '' '')))
       = (Str (str '' ''), \<lparr>isCorrect = True, suggestions = []\<rparr>)
   \<and> fst (onMessage toLowerCaseLatin1 exampleEnv initialState (Str (str '' '')))
       = (Str (str '' ''), \<lparr>isCorrect = False, suggestions = [str ''a'']\<rparr>)"
proof -
  have main:
    "toLowerCaseLatin1 [] = []
     \<and> fst (onMessage toLowerCaseLatin1 exampleEnv initialState (Str []))
         = (Str [], \<lparr>isCorrect = True, suggestions = []\<rparr>)
     \<and> fst (onMessage toLowerCaseLatin1 exampleEnv cachedState (Str [32]))
         = (Str [32], \<lparr>isCorrect = True, suggestions = []\<rparr>)
     \<and> fst (onMessage toLowerCaseLatin1 exampleEnv initialState (Str [32]))
         = (Str [32], \<lparr>isCorrect = False, suggestions = [[97]]\<rparr>)"
  proof -
    have e: "toLowerCaseLatin1 [] = []" by simp
    have w0: "\<forall>u\<in>set []. isWhiteSpace u" by simp
    have w1: "\<forall>u\<in>set [32]. isWhiteSpace u" by (simp add: isWhiteSpace_def)
    have en: "enabled defaultOptions" by (simp add: defaultOptions_def)
    have "fst (onMessage toLowerCaseLatin1 exampleEnv initialState (Str []))
         = (Str [], \<lparr>isCorrect = True, suggestions = []\<rparr>)"
      using blank_token_verdict [of toLowerCaseLatin1 "[]" exampleEnv initialState] e w0 by blast
    moreover have "fst (onMessage toLowerCaseLatin1 exampleEnv cachedState (Str [32]))
         = (Str [32], \<lparr>isCorrect = True, suggestions = []\<rparr>)"
    proof -
      have "\<forall>c\<in>set (editDistanceOne (toLowerCaseLatin1 [32])).
               c \<notin> dictionary exampleModel
               \<and> c \<notin> parseCustomWords toLowerCaseLatin1 (customWords defaultOptions)"
        using space_no_two_letter_word by (simp add: exampleModel_def defaultOptions_def)
      with blank_token_verdict [of toLowerCaseLatin1 "[32]" exampleEnv cachedState] e w1
        cached_resolve [of exampleEnv] cached_load [of toLowerCaseLatin1 exampleEnv] en
      show ?thesis by blast
    qed
    moreover have "fst (onMessage toLowerCaseLatin1 exampleEnv initialState (Str [32]))
         = (Str [32], \<lparr>isCorrect = False, suggestions = [[97]]\<rparr>)"
    proof -
      have cw: "parseCustomWords toLowerCaseLatin1 (customWords defaultOptions) = {}"
        by (simp add: defaultOptions_def)
      have "[97] \<in> set (filter (\<lambda>c. c = [97]) (editDistanceOne [32]))"
        unfolding space_candidates by simp
      then have "[97] \<in> set (editDistanceOne [32])" by simp
      then have miss: "toLowerCaseLatin1 [32] \<noteq> []
          \<and> toLowerCaseLatin1 [32] \<notin> dictionary exampleLexicon
          \<and> toLowerCaseLatin1 [32] \<notin> parseCustomWords toLowerCaseLatin1 (customWords defaultOptions)
          \<and> (\<exists>c\<in>set (editDistanceOne (toLowerCaseLatin1 [32])).
                c \<in> dictionary exampleLexicon
                \<or> c \<in> parseCustomWords toLowerCaseLatin1 (customWords defaultOptions))"
        unfolding cw by (auto simp: exampleLexicon_def)
      have "fst (onMessage toLowerCaseLatin1 exampleEnv initialState (Str [32]))
          = (Str [32],
             \<lparr>isCorrect = False,
              suggestions = rankCandidates toLowerCaseLatin1 (toLowerCaseLatin1 [32])
                  (editDistanceOne (toLowerCaseLatin1 [32])) exampleLexicon
                  (parseCustomWords toLowerCaseLatin1 (customWords defaultOptions))\<rparr>)"
        using blank_token_verdict [of toLowerCaseLatin1 "[32]" exampleEnv initialState] e w1
          example_resolve [of exampleEnv] example_load en miss
        by blast
      then show ?thesis
        unfolding cw by (simp add: space_ranked)
    qed
    ultimately show ?thesis using e by blast
  qed
  then show ?thesis by simp
qed

text \<open>
  C7, as stated: a custom word is scored with frequency 1 and -1.5 for each window whatever
  the tables hold for it. The custom word "zy", with frequency 2 and a score of -0.5 for
  the bigram "zy" in the tables, is scored -0.5 + ln 2.
\<close>

theorem custom_word_score_counterexample:
  "str ''zy'' \<in> {str ''zy''}
   \<and> rankCandidates toLowerCaseLatin1 (str ''z'') [str ''zy''] customModel {str ''zy''} = [str ''zy'']
   \<and> scoredEntries toLowerCaseLatin1 customModel {str ''zy''} [str ''zy''] []
       = [(str ''zy'', Finite (- 0.5 + ln 2))]
   \<and> - 0.5 + ln 2 \<noteq> (- 1.5 * real (length (str ''zy'') - 1) + ln 1 :: real)"
proof -
  have sc: "candidateScore toLowerCaseLatin1 customModel (str ''zy'') = Finite (- 0.5 + ln 2)"
    by (simp add: candidateScore_def getProperty_def mathLog_def customModel_def scoreWord_def
        slice_def)
  then have "scoredEntries toLowerCaseLatin1 customModel {str ''zy''} [str ''zy''] []
       = [(str ''zy'', Finite (- 0.5 + ln 2))]"
    by (simp add: scoredEntries_eq)
  moreover have "rankCandidates toLowerCaseLatin1 (str ''z'') [str ''zy''] customModel {str ''zy''}
       = [str ''zy'']"
    by (simp add: rankCandidates_eq arraySort_Cons arraySort_Nil)
  moreover have "- 0.5 + ln 2 \<noteq> (- 1.5 * real (length (str ''zy'') - 1) + ln 1 :: real)"
  proof -
    have "(0::real) < ln 2" by simp
    moreover have "(- 1.5 * real (length (str ''zy'') - 1) + ln 1 :: real) = - 1.5" by simp
    ultimately show ?thesis by linarith
  qed
  ultimately show ?thesis by simp
qed

text \<open>
  C7, amended: a candidate of the custom word set gets exactly one entry score, computed as
  for any other candidate. Its bigram score takes the entry of the bigram table for each
  window and -1.5 for a window with no entry. Its frequency is its (positive) entry in the
  frequency table; with no entry, and a name that \<open>Object.prototype\<close> does not hold, it is 1.
  So the score is -1.5 for each window when the tables hold nothing for the candidate. A
  custom word named like an inherited property ("constructor") is left out.
\<close>

theorem custom_word_score:
  assumes "c \<in> custom" and "c \<in> set cands"
  shows "(c, candidateScore lc m c) \<in> set (scoredEntries lc m custom cands [])
    \<and> (\<forall>s. (c, s) \<in> set (scoredEntries lc m custom cands []) \<longrightarrow> s = candidateScore lc m c)
    \<and> scoreWord lc c (bigramScores m)
        = (if length (lc c) < 2 then 0
           else (\<Sum>i<length (lc c) - 1.
                   case bigramScores m (slice i (i + 2) (lc c)) of None \<Rightarrow> - 1.5 | Some v \<Rightarrow> v))
    \<and> (\<forall>f. frequencies m c = Some f \<and> 0 < f
          \<longrightarrow> candidateScore lc m c = Finite (scoreWord lc c (bigramScores m) + ln f))
    \<and> (frequencies m c = None \<and> c \<notin> objectPrototypeKeys
          \<longrightarrow> candidateScore lc m c = Finite (scoreWord lc c (bigramScores m) + ln 1))
    \<and> (frequencies m c = None \<and> c \<notin> objectPrototypeKeys
        \<and> (\<forall>i<length (lc c) - 1. bigramScores m (slice i (i + 2) (lc c)) = None)
          \<longrightarrow> candidateScore lc m c = Finite (- 1.5 * real (length (lc c) - 1)))"
proof -
  have "(c, candidateScore lc m c) \<in> set (scoredEntries lc m custom cands [])"
    using assms by (simp add: scoredEntries_eq image_iff)
  moreover have "\<forall>s. (c, s) \<in> set (scoredEntries lc m custom cands [])
      \<longrightarrow> s = candidateScore lc m c"
    by (auto simp: scoredEntries_eq)
  moreover have "scoreWord lc c (bigramScores m)
        = (if length (lc c) < 2 then 0
           else (\<Sum>i<length (lc c) - 1.
                   case bigramScores m (slice i (i + 2) (lc c)) of None \<Rightarrow> - 1.5 | Some v \<Rightarrow> v))"
    by (rule scoreWord_as_sum)
  moreover have "\<forall>f. frequencies m c = Some f \<and> 0 < f
          \<longrightarrow> candidateScore lc m c = Finite (scoreWord lc c (bigramScores m) + ln f)"
    using candidateScore_entry [of m c _ lc] by blast
  moreover have "candidateScore lc m c = Finite (scoreWord lc c (bigramScores m) + ln 1)"
    if "frequencies m c = None \<and> c \<notin> objectPrototypeKeys"
    using that candidateScore_default [of m c lc] by blast
  moreover have "candidateScore lc m c = Finite (- 1.5 * real (length (lc c) - 1))"
    if "frequencies m c = None \<and> c \<notin> objectPrototypeKeys
        \<and> (\<forall>i<length (lc c) - 1. bigramScores m (slice i (i + 2) (lc c)) = None)"
    using that scoreWord_all_default [of lc c "bigramScores m"]
    by (simp add: candidateScore_default)
  ultimately show ?thesis by blast
qed

theorem custom_word_score_witness:
  "str ''zy'' \<in> {str ''zy''} \<and> str ''zy'' \<in> set [str ''zy'']
   \<and> str ''zy'' \<notin> objectPrototypeKeys
   \<and> scoredEntries toLowerCaseLatin1 emptyModel {str ''zy''} [str ''zy''] []
       = [(str ''zy'', Finite (- 1.5))]
   \<and> candidateScore toLowerCaseLatin1 emptyModel (str ''zy'') = Finite (- 1.5)
   \<and> candidateScore toLowerCaseLatin1 customModel (str ''zy'') = Finite (- 0.5 + ln 2)"
proof -
  have a: "str ''zy'' \<in> {str ''zy''}" and b: "str ''zy'' \<in> set [str ''zy'']"
    by simp_all
  have k: "str ''zy'' \<notin> objectPrototypeKeys"
    by (simp add: objectPrototypeKeys_def)
  note t = custom_word_score [OF a b, of toLowerCaseLatin1]
  have "frequencies emptyModel (str ''zy'') = None
        \<and> (\<forall>i<length (toLowerCaseLatin1 (str ''zy'')) - 1.
              bigramScores emptyModel (slice i (i + 2) (toLowerCaseLatin1 (str ''zy''))) = None)"
    by (simp add: emptyModel_def)
  with t [of emptyModel] k
  have sc: "candidateScore toLowerCaseLatin1 emptyModel (str ''zy'') = Finite (- 1.5)"
    by simp
  have "(str ''zy'', candidateScore toLowerCaseLatin1 emptyModel (str ''zy''))
      \<in> set (scoredEntries toLowerCaseLatin1 emptyModel {str ''zy''} [str ''zy''] [])"
    using t [of emptyModel] by blast
  have entries: "scoredEntries toLowerCaseLatin1 emptyModel {str ''zy''} [str ''zy''] []
       = [(str ''zy'', Finite (- 1.5))]"
    using sc by (simp add: scoredEntries_eq)
  have f2: "frequencies customModel (str ''zy'') = Some 2 \<and> (0::real) < 2"
    by (simp add: customModel_def)
  have bg: "scoreWord toLowerCaseLatin1 (str ''zy'') (bigramScores customModel) = - 0.5"
    by (simp add: scoreWord_def slice_def customModel_def)
  from t [of customModel] f2
  have "candidateScore toLowerCaseLatin1 customModel (str ''zy'')
      = Finite (scoreWord toLowerCaseLatin1 (str ''zy'') (bigramScores customModel) + ln 2)"
    by blast
  then have "candidateScore toLowerCaseLatin1 customModel (str ''zy'') = Finite (- 0.5 + ln 2)"
    unfolding bg .
  with a b k sc entries show ?thesis by simp
qed

text \<open>
  C8. When the enabled flag of the options the request reads is false (the cached
  \<open>currentOptions\<close> are disabled and so are the options re-read from storage), the verdict
  is \<open>{isCorrect: true, suggestions: []}\<close> for every token, \<open>modelCache\<close> is unchanged, and the
  only call made is \<open>loadOptions\<close>: no model is loaded or fetched, no candidate generated
  or ranked.
\<close>

theorem disabled_short_circuit:
  assumes "resolveOptions env s = (Inr opts, s1, c1)" and "\<not> enabled opts"
  shows "suggestCorrections lc env s tok = (Inr \<lparr>isCorrect = True, suggestions = []\<rparr>, s1, c1)
    \<and> onMessage lc env s tok = ((tok, \<lparr>isCorrect = True, suggestions = []\<rparr>), s1, c1)
    \<and> modelCache s1 = modelCache s
    \<and> c1 = [CallLoadOptions]"
proof -
  have sc: "suggestCorrections lc env s tok = (Inr \<lparr>isCorrect = True, suggestions = []\<rparr>, s1, c1)"
    using assms by (simp add: suggestCorrections_def assumeCorrect_def)
  then have "onMessage lc env s tok = ((tok, \<lparr>isCorrect = True, suggestions = []\<rparr>), s1, c1)"
    by (rule onMessage_result)
  with sc show ?thesis
    using resolveOptions_frame(1) [OF assms(1)] resolveOptions_disabled(4) [OF assms] by blast
qed

theorem disabled_short_circuit_witness:
  "onMessage toLowerCaseLatin1 disabledEnv disabledState (Str (str ''b''))
     = ((Str (str ''b''), \<lparr>isCorrect = True, suggestions = []\<rparr>), disabledState, [CallLoadOptions])
   \<and> modelCache disabledState = Map.empty"
proof -
  have "\<not> enabled disabledOptions"
    by (simp add: disabledOptions_def)
  from disabled_short_circuit [OF disabled_resolve this, of toLowerCaseLatin1 "Str (str ''b'')"]
  show ?thesis
    by (simp add: disabledState_def initialState_def)
qed

text \<open>
  C9. Whenever \<open>suggestCorrections\<close> fails, the listener answers
  \<open>{isCorrect: true, suggestions: []}\<close>: when the options cannot be read from storage, when
  the model cannot be fetched or parsed or has no word list (also when that failure is the
  cached one), and when the token is not a string.
\<close>

theorem failure_fails_open:
  "(suggestCorrections lc env s tok = (Inl e, s', cs)
      \<longrightarrow> onMessage lc env s tok = ((tok, \<lparr>isCorrect = True, suggestions = []\<rparr>), s', cs))
   \<and> (\<not> enabled (currentOptions s) \<and> storageGet env = Inl e
      \<longrightarrow> onMessage lc env s tok
           = ((tok, \<lparr>isCorrect = True, suggestions = []\<rparr>), s, [CallLoadOptions]))
   \<and> (resolveOptions env s = (Inr opts, s1, c1) \<and> enabled opts
       \<and> loadModel lc env s1 (language opts) = (Inl e, s2, c2)
      \<longrightarrow> onMessage lc env s tok
           = ((tok, \<lparr>isCorrect = True, suggestions = []\<rparr>), s2, c1 @ CallLoadModel # c2))
   \<and> fst (onMessage lc env s NotAString) = (NotAString, \<lparr>isCorrect = True, suggestions = []\<rparr>)"
proof -
  have "onMessage lc env s tok
           = ((tok, \<lparr>isCorrect = True, suggestions = []\<rparr>), s, [CallLoadOptions])"
    if "\<not> enabled (currentOptions s) \<and> storageGet env = Inl e"
    using that
    by (simp add: onMessage_def suggestCorrections_def resolveOptions_def loadOptions_def)
  moreover have "onMessage lc env s tok
           = ((tok, \<lparr>isCorrect = True, suggestions = []\<rparr>), s2, c1 @ CallLoadModel # c2)"
    if "resolveOptions env s = (Inr opts, s1, c1) \<and> enabled opts
       \<and> loadModel lc env s1 (language opts) = (Inl e, s2, c2)"
    using that by (simp add: onMessage_def suggestCorrections_def)
  ultimately show ?thesis
    using onMessage_failure [of lc env s tok e s' cs] onMessage_not_a_string [of lc env s]
    by blast
qed

theorem failure_fails_open_witness:
  "fst (suggestCorrections toLowerCaseLatin1 offlineEnv initialState (Str (str ''b''))) = Inl FetchError
   \<and> fst (onMessage toLowerCaseLatin1 offlineEnv initialState (Str (str ''b'')))
       = (Str (str ''b''), \<lparr>isCorrect = True, suggestions = []\<rparr>)
   \<and> fst (suggestCorrections toLowerCaseLatin1 brokenEnv initialState (Str (str ''b''))) = Inl TypeError
   \<and> fst (onMessage toLowerCaseLatin1 brokenEnv initialState (Str (str ''b'')))
       = (Str (str ''b''), \<lparr>isCorrect = True, suggestions = []\<rparr>)
   \<and> fst (suggestCorrections toLowerCaseLatin1 offlineEnv disabledState (Str (str ''b''))) = Inl StorageError
   \<and> fst (onMessage toLowerCaseLatin1 offlineEnv disabledState (Str (str ''b'')))
       = (Str (str ''b''), \<lparr>isCorrect = True, suggestions = []\<rparr>)
   \<and> fst (suggestCorrections toLowerCaseLatin1 exampleEnv initialState NotAString) = Inl TypeError
   \<and> fst (onMessage toLowerCaseLatin1 exampleEnv initialState NotAString)
       = (NotAString, \<lparr>isCorrect = True, suggestions = []\<rparr>)"
proof -
  have en: "enabled defaultOptions" by (simp add: defaultOptions_def)
  have f1: "suggestCorrections toLowerCaseLatin1 offlineEnv initialState (Str (str ''b''))
      = (Inl FetchError, initialState\<lparr>modelCache := [''models/model.json'' \<mapsto> Inl FetchError]\<rparr>,
         [CallLoadModel, CallFetch ''models/model.json''])"
    by (simp add: suggestCorrections_def example_resolve en offline_load)
  have f2: "suggestCorrections toLowerCaseLatin1 brokenEnv initialState (Str (str ''b''))
      = (Inl TypeError, initialState\<lparr>modelCache := [''models/model.json'' \<mapsto> Inl TypeError]\<rparr>,
         [CallLoadModel, CallFetch ''models/model.json''])"
    by (simp add: suggestCorrections_def example_resolve en broken_load)
  have f3: "suggestCorrections toLowerCaseLatin1 offlineEnv disabledState (Str (str ''b''))
      = (Inl StorageError, disabledState, [CallLoadOptions])"
    by (simp add: suggestCorrections_def resolveOptions_def loadOptions_def offlineEnv_def
        disabledState_def disabledOptions_def initialState_def defaultOptions_def)
  have f4: "suggestCorrections toLowerCaseLatin1 exampleEnv initialState NotAString
      = (Inl TypeError, loadedState, [CallLoadModel, CallFetch ''models/model.json''])"
    by (simp add: suggestCorrections_def example_resolve en example_load)
  note t = failure_fails_open [of toLowerCaseLatin1]
  have "fst (onMessage toLowerCaseLatin1 offlineEnv initialState (Str (str ''b'')))
       = (Str (str ''b''), \<lparr>isCorrect = True, suggestions = []\<rparr>)"
    using t [of offlineEnv initialState "Str (str ''b'')" FetchError] f1 by simp
  moreover have "fst (onMessage toLowerCaseLatin1 brokenEnv initialState (Str (str ''b'')))
       = (Str (str ''b''), \<lparr>isCorrect = True, suggestions = []\<rparr>)"
    using t [of brokenEnv initialState "Str (str ''b'')" TypeError] f2 by simp
  moreover have "fst (onMessage toLowerCaseLatin1 offlineEnv disabledState (Str (str ''b'')))
       = (Str (str ''b''), \<lparr>isCorrect = True, suggestions = []\<rparr>)"
    using t [of offlineEnv disabledState "Str (str ''b'')" StorageError] f3 by simp
  moreover have "fst (onMessage toLowerCaseLatin1 exampleEnv initialState NotAString)
       = (NotAString, \<lparr>isCorrect = True, suggestions = []\<rparr>)"
    using t [of exampleEnv initialState NotAString TypeError] f4 by simp
  ultimately show ?thesis
    using f1 f2 f3 f4 by simp
qed

text \<open>
  C10. No suggestion of the verdict sent back equals the lowercased token, in every state
  and environment.
\<close>

theorem suggestion_differs_from_token:
  "lc t \<notin> set (suggestions (snd (fst (onMessage lc env s (Str t)))))"
proof (cases "suggestCorrections lc env s (Str t)")
  case (fields r s' cs)
  show ?thesis
  proof (cases r)
    case (Inl e)
    with fields show ?thesis by (simp add: onMessage_def)
  next
    case (Inr v)
    with fields have "lc t \<notin> set (suggestions v)"
      using suggestions_not_token [of lc env s t v s' cs] by simp
    with fields Inr show ?thesis by (simp add: onMessage_def)
  qed
qed

theorem suggestion_differs_from_token_witness:
  "suggestions (snd (fst (onMessage toLowerCaseLatin1 exampleEnv initialState (Str (str ''b'')))))
     = [str ''a'']
   \<and> toLowerCaseLatin1 (str ''b'')
       \<notin> set (suggestions (snd (fst (onMessage toLowerCaseLatin1 exampleEnv initialState (Str (str ''b''))))))"
  using suggestion_differs_from_token [of toLowerCaseLatin1 "str ''b''" exampleEnv initialState]
  by (simp add: onMessage_def b_suggest)

end
